theory Spec2Isabelle
  imports Complex_Main "HOL-Library.AList" "HOL-Library.Product_Lexorder"
begin

section \<open>Conventions of the embedding\<close>

text \<open>
  The program keeps its state in JSON documents and Python dictionaries. A dictionary
  whose entries are visited in order (\<^verbatim>\<open>positions.items()\<close>) is an association list
  with distinct keys; \<^verbatim>\<open>d[k] = v\<close> is \<open>AList.update\<close>, which replaces the value of an
  existing key in place and appends a new key at the end, as a Python dict does.

  A dictionary entry that the code reads with \<^verbatim>\<open>.get\<close> is a field of type \<open>'a option\<close>:
  \<open>None\<close> is an absent key, and a present key holds a value of its type. Prices and
  contract counts are Python integers (\<open>int\<close>); temperatures, hours and minutes are
  Python floats that take part only in comparisons and in sums with halves, and are
  modelled by the rationals. Timestamps are the ISO strings that
  \<^verbatim>\<open>datetime.now().isoformat()\<close> returns; the clock is a parameter.

  An exception is the left summand of a result \<open>error + 'a\<close>.
\<close>

datatype error = RequestException | ValueError | TypeError | KeyError

text \<open>\<^verbatim>\<open>x or 0\<close> on an optional integer.\<close>

definition or0 :: "int option \<Rightarrow> int" where
  "or0 x = (case x of None \<Rightarrow> 0 | Some v \<Rightarrow> v)"

text \<open>\<^verbatim>\<open>d.get(k, default)\<close> on an optional field.\<close>

definition get_default :: "'a option \<Rightarrow> 'a \<Rightarrow> 'a" where
  "get_default x d = (case x of None \<Rightarrow> d | Some v \<Rightarrow> v)"

section \<open>The position store (monitor.py)\<close>

text \<open>
  One entry of \<^verbatim>\<open>positions.json\<close>. The first eight fields are written by
  \<^verbatim>\<open>add_pending_order\<close>; the others are added later by reconciliation, by the hedge
  execution and by the partial-fill actions.
\<close>

record leg =
  ticker :: "string option"
  side :: "string option"
  limit_price :: "int option"
  intended_count :: "int option"
  count :: "int option"
  order_id :: "string option"
  timestamp :: "string option"
  status :: "string option"
  filled_timestamp :: "string option"
  series :: "string option"
  reprice_count :: "int option"
  sold_price :: "int option"
  sold_timestamp :: "string option"
  pnl :: "int option"
  cancelled_timestamp :: "string option"

type_synonym positions = "(string \<times> leg) list"

text \<open>
  \<^verbatim>\<open>add_pending_order(ticker, side, limit_price, intended_count, order_id=None)\<close>:
  loads the store, assigns a fresh record to the key \<^verbatim>\<open>f"{ticker}_{side}"\<close> and saves.
  The function takes the stored document and the clock reading and returns the
  document it saves. There is no check of the key before the assignment.
\<close>

definition position_key :: "string \<Rightarrow> string \<Rightarrow> string" where
  "position_key t s = t @ ''_'' @ s"

definition add_pending_order ::
  "positions \<Rightarrow> string \<Rightarrow> string \<Rightarrow> int \<Rightarrow> int \<Rightarrow> string option \<Rightarrow> string \<Rightarrow> positions" where
  "add_pending_order positions t s lp ic oid now =
     AList.update (position_key t s)
       \<lparr> ticker = Some t, side = Some s, limit_price = Some lp, intended_count = Some ic,
         count = Some 0, order_id = oid, timestamp = Some now, status = Some ''pending'',
         filled_timestamp = None, series = None, reprice_count = None, sold_price = None,
         sold_timestamp = None, pnl = None, cancelled_timestamp = None \<rparr>
       positions"

text \<open>
  A row of the venue's holdings answer: a ticker and a contract count under the key
  \<^verbatim>\<open>position\<close> or \<^verbatim>\<open>count\<close>.
\<close>

record holding =
  holding_ticker :: "string option"
  holding_position :: "int option"
  holding_count :: "int option"

text \<open>
  The loop that builds \<^verbatim>\<open>pos_map\<close>:
  \<^verbatim>\<open>c = p.get("position") or p.get("count") or 0; if t: pos_map[t] = int(c)\<close>.
  A later row of the same ticker overwrites an earlier one.
\<close>

definition holding_c :: "holding \<Rightarrow> int" where
  "holding_c p =
     (if or0 (holding_position p) \<noteq> 0 then or0 (holding_position p)
      else if or0 (holding_count p) \<noteq> 0 then or0 (holding_count p) else 0)"

fun build_pos_map :: "holding list \<Rightarrow> (string \<rightharpoonup> int) \<Rightarrow> (string \<rightharpoonup> int)" where
  "build_pos_map [] m = m"
| "build_pos_map (p # ps) m =
     (case holding_ticker p of
        None \<Rightarrow> build_pos_map ps m
      | Some t \<Rightarrow> if t = [] then build_pos_map ps m
                  else build_pos_map ps (m(t \<mapsto> holding_c p)))"

text \<open>
  The body of the loop over the tracked records (monitor.py, lines 76 to 100), for one
  record; \<open>now\<close> is the clock reading while this record is processed.
  \<open>is_open\<close> is the negation of the test of line 78, \<open>intended_of\<close> is line 82 and
  \<open>reported_count\<close> is \<^verbatim>\<open>pos_map.get(t, 0)\<close> of line 83; no key of \<^verbatim>\<open>pos_map\<close> is
  \<^verbatim>\<open>None\<close>, so a record without ticker reads 0.
\<close>

definition is_open :: "leg \<Rightarrow> bool" where
  "is_open rec = (get_default (status rec) ''filled'' = ''pending''
                  \<or> get_default (status rec) ''filled'' = ''partial'')"

definition intended_of :: "leg \<Rightarrow> int" where
  "intended_of rec =
     or0 (case intended_count rec of
            None \<Rightarrow> Some (get_default (count rec) 0)
          | Some n \<Rightarrow> Some n)"

definition reported_count :: "(string \<rightharpoonup> int) \<Rightarrow> leg \<Rightarrow> int" where
  "reported_count pos_map rec =
     (case ticker rec of None \<Rightarrow> 0 | Some t \<Rightarrow> get_default (pos_map t) 0)"

definition reconcile_rec :: "(string \<rightharpoonup> int) \<Rightarrow> string \<Rightarrow> leg \<Rightarrow> leg" where
  "reconcile_rec pos_map now rec =
     (if \<not> is_open rec then rec
      else
        let intended = intended_of rec;
            filled = reported_count pos_map rec
        in if filled \<le> 0 then rec\<lparr>status := Some ''pending'', count := Some 0\<rparr>
           else if filled < intended then
             rec\<lparr>status := Some ''partial'', count := Some filled,
                 filled_timestamp :=
                   (case filled_timestamp rec of None \<Rightarrow> Some now | Some ts \<Rightarrow> Some ts)\<rparr>
           else
             let prev = status rec in
             rec\<lparr>status := Some ''filled'', count := Some filled,
                 filled_timestamp :=
                   (if prev \<noteq> Some ''filled'' then Some now else filled_timestamp rec)\<rparr>)"

text \<open>
  \<^verbatim>\<open>reconcile_pending_orders(fetch_positions_fn)\<close>. The arguments are the stored
  document (a missing file is the empty document), the outcome of the call
  \<^verbatim>\<open>fetch_positions_fn()\<close> (\<open>Inl\<close> when it raises, \<open>Inr None\<close> when it returns a
  falsy value) and the clock, indexed by the key of the record being processed. The
  result is the stored document afterwards and what the call gives its caller: \<open>Inr\<close>
  of the returned dictionary, or \<open>Inl\<close> of an exception that leaves the function.
\<close>

definition reconcile_pending_orders ::
  "positions \<Rightarrow> (error + holding list option) \<Rightarrow> (string \<Rightarrow> string)
     \<Rightarrow> positions \<times> (error + positions)" where
  "reconcile_pending_orders store fetch clock =
     (let positions = store in
      if positions = [] then (store, Inr positions)
      else case fetch of
        Inl e \<Rightarrow> (store, Inr positions)
      | Inr r \<Rightarrow>
          let portfolio_positions = (case r of None \<Rightarrow> [] | Some ps \<Rightarrow> ps);
              pos_map = build_pos_map portfolio_positions Map.empty;
              changed = list_ex (\<lambda>(key, rec). is_open rec) positions;
              positions' = map (\<lambda>(key, rec). (key, reconcile_rec pos_map (clock key) rec)) positions
          in (if changed then positions' else store, Inr positions'))"

text \<open>
  A sequence of reconciliation passes, each with its own answer of the venue and its own
  clock; every pass starts from the document the previous one stored.
\<close>

fun reconcile_passes ::
  "positions \<Rightarrow> ((error + holding list option) \<times> (string \<Rightarrow> string)) list \<Rightarrow> positions" where
  "reconcile_passes store [] = store"
| "reconcile_passes store ((fetch, clock) # ps) =
     reconcile_passes (fst (reconcile_pending_orders store fetch clock)) ps"

text \<open>
  The count that a pass reads for a leg out of the venue's answer \<open>r\<close> (lines 61 to 83):
  the entry of \<^verbatim>\<open>pos_map\<close> for the leg's ticker, 0 when there is none.
\<close>

abbreviation venue_count :: "holding list option \<Rightarrow> leg \<Rightarrow> int" where
  "venue_count r l \<equiv>
     (case ticker l of
        None \<Rightarrow> 0
      | Some t \<Rightarrow>
          (case build_pos_map (case r of None \<Rightarrow> [] | Some ps \<Rightarrow> ps) Map.empty t of
             None \<Rightarrow> 0
           | Some c \<Rightarrow> c))"

subsection \<open>Sample records\<close>

text \<open>A leg ordered for five contracts of which three are filled.\<close>

definition leg_T_partial :: leg where
  "leg_T_partial =
     \<lparr> ticker = Some ''T'', side = Some ''yes'', limit_price = Some 30,
       intended_count = Some 5, count = Some 3, order_id = Some ''o1'',
       timestamp = Some ''2026-01-26T10:00:00'', status = Some ''partial'',
       filled_timestamp = Some ''2026-01-26T10:05:00'', series = None, reprice_count = None,
       sold_price = None, sold_timestamp = None, pnl = None, cancelled_timestamp = None \<rparr>"

text \<open>
  A record in status \<open>partial\<close> without the key \<^verbatim>\<open>intended_count\<close>, the case for
  which \<^verbatim>\<open>reconcile_pending_orders\<close> falls back to the key \<^verbatim>\<open>count\<close>.
\<close>

definition leg_U_legacy :: leg where
  "leg_U_legacy =
     \<lparr> ticker = Some ''U'', side = Some ''yes'', limit_price = Some 30,
       intended_count = None, count = Some 5, order_id = None,
       timestamp = Some ''2026-01-26T10:00:00'', status = Some ''partial'',
       filled_timestamp = None, series = None, reprice_count = None,
       sold_price = None, sold_timestamp = None, pnl = None, cancelled_timestamp = None \<rparr>"

text \<open>A leg whose single contract is filled.\<close>

definition leg_V_filled :: leg where
  "leg_V_filled =
     \<lparr> ticker = Some ''V'', side = Some ''yes'', limit_price = Some 38,
       intended_count = Some 1, count = Some 1, order_id = Some ''o2'',
       timestamp = Some ''2026-01-26T09:00:00'', status = Some ''filled'',
       filled_timestamp = Some ''2026-01-26T09:30:00'', series = None, reprice_count = None,
       sold_price = None, sold_timestamp = None, pnl = None, cancelled_timestamp = None \<rparr>"

text \<open>A store with the partial and the filled leg.\<close>

definition two_legs :: positions where
  "two_legs = [(''T_yes'', leg_T_partial), (''V_yes'', leg_V_filled)]"

definition holding_of :: "string \<Rightarrow> int \<Rightarrow> holding" where
  "holding_of t n = \<lparr> holding_ticker = Some t, holding_position = Some n, holding_count = None \<rparr>"

section \<open>The trade ledger (trade\_history.py)\<close>

text \<open>
  One leg of a trade record and the trade record, with the keys that
  \<^verbatim>\<open>record_win\<close>, \<^verbatim>\<open>record_loss\<close> and \<^verbatim>\<open>record_derisk\<close> read or write. Keys read
  by subscript (\<^verbatim>\<open>trade["total_cost"]\<close>, \<^verbatim>\<open>leg["key"]\<close>) are always present in a
  record written by \<^verbatim>\<open>record_hedge_entry\<close>; keys read with \<^verbatim>\<open>.get\<close> are optional.
  The history is its list of trades: the summary block, which \<^verbatim>\<open>_update_summary\<close>
  recomputes from the trades on every call, is left out. Each recording function takes
  the stored trades and one clock reading, and returns the trades it saves and its
  return value (\<open>False\<close>: nothing was saved).
\<close>

record trade_leg =
  leg_key :: string
  leg_title :: "string option"
  fill_price :: "int option"
  order_price :: "int option"
  leg_sold_price :: "int option"
  leg_sold_timestamp :: "string option"
  leg_status :: "string option"
  leg_pnl :: "int option"
  leg_cancelled_timestamp :: "string option"

record exit_info =
  exit_type :: string
  exit_timestamp :: string
  exit_sold_leg :: "string option"
  exit_sold_price :: "int option"
  exit_entry_price :: "int option"
  exit_pnl :: int

record trade =
  trade_id :: string
  leg1 :: trade_leg
  leg2 :: trade_leg
  total_cost :: int
  outcome :: string
  actual_temp :: "rat option"
  winning_bucket :: "string option"
  trade_pnl :: "int option"
  settled_at :: "string option"
  updated_at :: "string option"
  exit :: "exit_info option"

text \<open>
  \<^verbatim>\<open>next((t for t in history["trades"] if t["id"] == trade_id), None)\<close>, and the
  list of trades after the trade found that way has been mutated in place.
\<close>

fun find_trade :: "trade list \<Rightarrow> string \<Rightarrow> trade option" where
  "find_trade [] tid = None"
| "find_trade (t # ts) tid = (if trade_id t = tid then Some t else find_trade ts tid)"

fun replace_trade :: "trade list \<Rightarrow> string \<Rightarrow> trade \<Rightarrow> trade list" where
  "replace_trade [] tid t' = []"
| "replace_trade (t # ts) tid t' =
     (if trade_id t = tid then t' # ts else t # replace_trade ts tid t')"

text \<open>\<^verbatim>\<open>leg.get("fill_price") or leg.get("order_price", 0)\<close>.\<close>

definition entry_price :: "trade_leg \<Rightarrow> int" where
  "entry_price leg =
     (if or0 (fill_price leg) \<noteq> 0 then or0 (fill_price leg) else get_default (order_price leg) 0)"

definition record_win ::
  "trade list \<Rightarrow> string \<Rightarrow> string \<Rightarrow> rat option \<Rightarrow> int \<Rightarrow> string \<Rightarrow> trade list \<times> bool" where
  "record_win trades tid winning_leg_key temp sold now =
     (case find_trade trades tid of
        None \<Rightarrow> (trades, False)
      | Some t \<Rightarrow>
          if leg_key (leg1 t) \<noteq> winning_leg_key \<and> leg_key (leg2 t) \<noteq> winning_leg_key
          then (trades, False)
          else
            let won = \<lambda>leg. leg\<lparr>leg_sold_price := Some sold, leg_sold_timestamp := Some now,
                                 leg_status := Some ''won_sold''\<rparr>;
                first = (leg_key (leg1 t) = winning_leg_key);
                winning_bucket' = (if first then leg_title (leg1 t) else leg_title (leg2 t));
                p = 100 - total_cost t;
                t' = t\<lparr>leg1 := (if first then won (leg1 t) else leg1 t),
                       leg2 := (if first then leg2 t else won (leg2 t)),
                       outcome := ''win'', actual_temp := temp,
                       winning_bucket := winning_bucket', trade_pnl := Some p,
                       settled_at := Some now, updated_at := Some now,
                       exit := Some \<lparr>exit_type = ''win'', exit_timestamp = now,
                                      exit_sold_leg = None, exit_sold_price = Some sold,
                                      exit_entry_price = None, exit_pnl = p\<rparr>\<rparr>
            in (replace_trade trades tid t', True))"

definition record_loss ::
  "trade list \<Rightarrow> string \<Rightarrow> rat option \<Rightarrow> string \<Rightarrow> trade list \<times> bool" where
  "record_loss trades tid temp now =
     (case find_trade trades tid of
        None \<Rightarrow> (trades, False)
      | Some t \<Rightarrow>
          let p = - total_cost t;
              t' = t\<lparr>outcome := ''loss'', actual_temp := temp, trade_pnl := Some p,
                     settled_at := Some now, updated_at := Some now,
                     exit := Some \<lparr>exit_type = ''loss'', exit_timestamp = now,
                                    exit_sold_leg = None, exit_sold_price = None,
                                    exit_entry_price = None, exit_pnl = p\<rparr>\<rparr>
          in (replace_trade trades tid t', True))"

definition record_derisk ::
  "trade list \<Rightarrow> string \<Rightarrow> string \<Rightarrow> int \<Rightarrow> string \<Rightarrow> string \<Rightarrow> trade list \<times> bool" where
  "record_derisk trades tid sold_leg_key sold cancelled_leg_key now =
     (case find_trade trades tid of
        None \<Rightarrow> (trades, False)
      | Some t \<Rightarrow>
          let first = (leg_key (leg1 t) = sold_leg_key);
              sold_leg = (if first then leg1 t else leg2 t);
              cancelled_leg = (if first then leg2 t else leg1 t);
              entry = entry_price sold_leg;
              p = sold - entry;
              sold_leg' = sold_leg\<lparr>leg_sold_price := Some sold, leg_sold_timestamp := Some now,
                                   leg_status := Some ''derisk_sold'', leg_pnl := Some p\<rparr>;
              cancelled_leg' = cancelled_leg\<lparr>leg_status := Some ''derisk_cancelled'',
                                             leg_cancelled_timestamp := Some now\<rparr>;
              t' = t\<lparr>leg1 := (if first then sold_leg' else cancelled_leg'),
                     leg2 := (if first then cancelled_leg' else sold_leg'),
                     outcome := ''derisked'', trade_pnl := Some p,
                     settled_at := Some now, updated_at := Some now,
                     exit := Some \<lparr>exit_type = ''derisk'', exit_timestamp = now,
                                    exit_sold_leg = Some sold_leg_key, exit_sold_price = Some sold,
                                    exit_entry_price = Some entry, exit_pnl = p\<rparr>\<rparr>
          in (replace_trade trades tid t', True))"

subsection \<open>Sample trade\<close>

text \<open>The hedge of the legs bought at 38 and 22 cents.\<close>

definition sample_leg :: "string \<Rightarrow> int \<Rightarrow> trade_leg" where
  "sample_leg k p =
     \<lparr>leg_key = k, leg_title = Some k, fill_price = Some p, order_price = Some p,
      leg_sold_price = None, leg_sold_timestamp = None, leg_status = Some ''filled'',
      leg_pnl = None, leg_cancelled_timestamp = None\<rparr>"

definition sample_trade :: trade where
  "sample_trade =
     \<lparr>trade_id = ''KXHIGHTDC_2026-01-22'', leg1 = sample_leg ''A_yes'' 38,
      leg2 = sample_leg ''B_yes'' 22, total_cost = 60, outcome = ''open'', actual_temp = None,
      winning_bucket = None, trade_pnl = None, settled_at = None, updated_at = None,
      exit = None\<rparr>"

text \<open>
  A second hedge whose first leg has no fill price yet: its entry price is the order
  price of 40 cents.
\<close>

definition unfilled_leg :: "string \<Rightarrow> int \<Rightarrow> trade_leg" where
  "unfilled_leg k p =
     \<lparr>leg_key = k, leg_title = Some k, fill_price = None, order_price = Some p,
      leg_sold_price = None, leg_sold_timestamp = None, leg_status = Some ''pending'',
      leg_pnl = None, leg_cancelled_timestamp = None\<rparr>"

definition sample_trade_unfilled :: trade where
  "sample_trade_unfilled =
     \<lparr>trade_id = ''KXHIGHTDC_2026-01-23'', leg1 = unfilled_leg ''C_yes'' 40,
      leg2 = sample_leg ''D_yes'' 22, total_cost = 62, outcome = ''open'', actual_temp = None,
      winning_bucket = None, trade_pnl = None, settled_at = None, updated_at = None,
      exit = None\<rparr>"

section \<open>Configuration (config.py, strategy.py)\<close>

definition MAX_BUCKET_PRICE :: int where "MAX_BUCKET_PRICE = 50"
definition MAX_TOTAL_COST :: int where "MAX_TOTAL_COST = 100"
definition MIN_BUCKET_PRICE :: int where "MIN_BUCKET_PRICE = 2"
definition REPRICE_INCREMENT :: int where "REPRICE_INCREMENT = 1"

section \<open>The partial-fill policy (strategy.py)\<close>

text \<open>
  The answer of \<^verbatim>\<open>get_market_price\<close>: the best ask and bid of the yes side, either of
  which the venue may leave out.
\<close>

record quote =
  yes_ask :: "int option"
  yes_bid :: "int option"

text \<open>An element of the list that \<^verbatim>\<open>find_partial_fill_hedges\<close> returns.\<close>

record hedge =
  hedge_series :: string
  filled_key :: string
  filled_pos :: leg
  pending_key :: string
  pending_pos :: leg

text \<open>
  The result of \<^verbatim>\<open>evaluate_partial_fill\<close>: the keys \<^verbatim>\<open>action\<close> and
  \<^verbatim>\<open>new_maker_price\<close> of the dictionary it returns (the early return has no
  \<^verbatim>\<open>new_maker_price\<close>). The other keys repeat the inputs for the log.
\<close>

record evaluation =
  action :: string
  new_maker_price :: "int option"

text \<open>
  The maker price: one cent above the bid when there is a bid, never above the ask,
  clamped to 1..99 (strategy.py, lines 545 and 546, and lines 105 to 110).
\<close>

definition maker_price_of :: "int \<Rightarrow> int \<Rightarrow> int" where
  "maker_price_of bid ask = max 1 (min 99 (if bid > 0 then min (bid + 1) ask else ask))"

text \<open>
  \<^verbatim>\<open>evaluate_partial_fill(hedge, days_ahead)\<close>. Its reads of the outside are
  arguments: \<open>hours_until_close\<close> is what \<^verbatim>\<open>get_hours_until_close\<close> returns for the
  pending ticker (\<open>None\<close> when the date cannot be read), \<open>current_prices\<close> is the
  outcome of \<^verbatim>\<open>get_market_price\<close>: \<open>Inl\<close> when the request raises, \<open>Inr None\<close> when
  the venue does not answer with status 200. The forecast is fetched for the log only.
  The subscripts \<^verbatim>\<open>pending_pos["ticker"]\<close> and \<^verbatim>\<open>filled_pos["ticker"]\<close> raise
  KeyError on a record without ticker.
\<close>

definition hours_below :: "rat option \<Rightarrow> rat \<Rightarrow> bool" where
  "hours_below hours_until_close x = (case hours_until_close of None \<Rightarrow> False | Some h \<Rightarrow> h < x)"

definition evaluate_partial_fill ::
  "hedge \<Rightarrow> rat option \<Rightarrow> (error + quote option) \<Rightarrow> error + evaluation" where
  "evaluate_partial_fill hedge hours_until_close current_prices =
     (case ticker (pending_pos hedge) of
        None \<Rightarrow> Inl KeyError
      | Some pt \<Rightarrow>
          (case current_prices of
             Inl e \<Rightarrow> Inl e
           | Inr None \<Rightarrow> Inr \<lparr>action = ''wait'', new_maker_price = None\<rparr>
           | Inr (Some pr) \<Rightarrow>
               (case ticker (filled_pos hedge) of
                  None \<Rightarrow> Inl KeyError
                | Some ft \<Rightarrow>
                    (let current_ask = or0 (yes_ask pr);
                         current_bid = or0 (yes_bid pr);
                         original_limit = get_default (limit_price (pending_pos hedge)) 0;
                         nmp = maker_price_of current_bid current_ask
                     in
                       if hours_below hours_until_close 2 then
                         Inr \<lparr>action = ''derisk'', new_maker_price = Some nmp\<rparr>
                       else if hours_below hours_until_close 6 then
                         (if nmp \<le> original_limit + REPRICE_INCREMENT
                          then Inr \<lparr>action = ''reprice'', new_maker_price = Some nmp\<rparr>
                          else Inr \<lparr>action = ''derisk'', new_maker_price = Some nmp\<rparr>)
                       else
                         (let price_diff = nmp - original_limit in
                          if price_diff \<le> 0 then
                            Inr \<lparr>action = ''wait'', new_maker_price = Some nmp\<rparr>
                          else if price_diff = 1 then
                            Inr \<lparr>action = ''reprice'', new_maker_price = Some nmp\<rparr>
                          else
                            (let filled_price = get_default (limit_price (filled_pos hedge)) 0;
                                 new_total = filled_price + nmp
                             in if new_total \<le> MAX_TOTAL_COST
                                then Inr \<lparr>action = ''reprice'', new_maker_price = Some nmp\<rparr>
                                else Inr \<lparr>action = ''derisk'', new_maker_price = Some nmp\<rparr>))))))"

text \<open>\<^verbatim>\<open>get_wait_minutes_for_hours\<close>: the dwell time in minutes.\<close>

definition get_wait_minutes_for_hours :: "rat option \<Rightarrow> int" where
  "get_wait_minutes_for_hours hours_until_close =
     (case hours_until_close of
        None \<Rightarrow> 60
      | Some h \<Rightarrow> if h > 12 then 120 else if h > 6 then 60 else if h > 2 then 20 else 0)"

text \<open>
  \<^verbatim>\<open>parse_iso_datetime(dt_string)\<close>. The library function
  \<^verbatim>\<open>datetime.fromisoformat\<close> is the parameter \<open>fromisoformat\<close>, where \<open>None\<close> is its
  ValueError. A falsy argument gives \<open>None\<close>; otherwise every \<open>Z\<close> is replaced by
  \<open>+00:00\<close> and the string is parsed; when that raises, the part before the first \<open>+\<close>
  is parsed, outside any \<^verbatim>\<open>try\<close>, so a second ValueError leaves the function.
\<close>

definition replace_Z :: "string \<Rightarrow> string" where
  "replace_Z s = concat (map (\<lambda>c. if c = CHR ''Z'' then ''+00:00'' else [c]) s)"

definition parse_iso_datetime :: "(string \<Rightarrow> 'd option) \<Rightarrow> string option \<Rightarrow> error + 'd option" where
  "parse_iso_datetime fromisoformat dt_string =
     (case dt_string of
        None \<Rightarrow> Inr None
      | Some s \<Rightarrow>
          if s = [] then Inr None
          else
            (let s' = replace_Z s in
              (case fromisoformat s' of
                 Some d \<Rightarrow> Inr (Some d)
               | None \<Rightarrow>
                   (case fromisoformat
                           (takeWhile (\<lambda>c. c \<noteq> CHR ''Z'') (takeWhile (\<lambda>c. c \<noteq> CHR ''+'') s')) of
                      Some d \<Rightarrow> Inr (Some d)
                    | None \<Rightarrow> Inl ValueError))))"

text \<open>Minutes as a Python float: a finite number or \<^verbatim>\<open>float('inf')\<close>.\<close>

datatype minutes = Minutes rat | Infinite

text \<open>\<^verbatim>\<open>minutes_waiting < wait_minutes\<close>.\<close>

fun minutes_less :: "minutes \<Rightarrow> int \<Rightarrow> bool" where
  "minutes_less Infinite w = False"
| "minutes_less (Minutes m) w = (m < of_int w)"

text \<open>
  \<^verbatim>\<open>get_time_since_order(pos)\<close>. The parameter \<open>since\<close> is
  \<^verbatim>\<open>(datetime.now() - order_time).total_seconds() / 60\<close>, which raises TypeError when
  \<open>order_time\<close> carries a time zone.
\<close>

definition get_time_since_order ::
  "(string \<Rightarrow> 'd option) \<Rightarrow> ('d \<Rightarrow> error + rat) \<Rightarrow> leg \<Rightarrow> error + minutes" where
  "get_time_since_order fromisoformat since pos =
     (case timestamp pos of
        None \<Rightarrow> Inr Infinite
      | Some ts \<Rightarrow>
          if ts = [] then Inr Infinite
          else
            (case parse_iso_datetime fromisoformat (Some ts) of
               Inl e \<Rightarrow> Inl e
             | Inr None \<Rightarrow> Inr Infinite
             | Inr (Some order_time) \<Rightarrow>
                 (case since order_time of Inl e \<Rightarrow> Inl e | Inr m \<Rightarrow> Inr (Minutes m))))"

text \<open>
  The body of the loop of \<^verbatim>\<open>monitor_partial_fills\<close> up to the decision (lines 740 to
  773): the wait-period gate, then \<^verbatim>\<open>evaluate_partial_fill\<close>. The log lines before
  the gate subscript both tickers.
\<close>

definition monitor_decision ::
  "(string \<Rightarrow> 'd option) \<Rightarrow> ('d \<Rightarrow> error + rat) \<Rightarrow> hedge \<Rightarrow> rat option
     \<Rightarrow> (error + quote option) \<Rightarrow> error + evaluation" where
  "monitor_decision fromisoformat since hedge hours_until_close current_prices =
     (if ticker (filled_pos hedge) = None \<or> ticker (pending_pos hedge) = None then Inl KeyError
      else
        (let wait_minutes = get_wait_minutes_for_hours hours_until_close in
          (case get_time_since_order fromisoformat since (pending_pos hedge) of
             Inl e \<Rightarrow> Inl e
           | Inr minutes_waiting \<Rightarrow>
               if minutes_less minutes_waiting wait_minutes
               then Inr \<lparr>action = ''wait'', new_maker_price = None\<rparr>
               else evaluate_partial_fill hedge hours_until_close current_prices)))"


subsection \<open>Sample hedge\<close>

text \<open>
  A pending leg ordered at \<open>lp\<close> cents, with or without an order timestamp, paired with
  the leg filled at 38 cents.
\<close>

definition pending_leg :: "int \<Rightarrow> string option \<Rightarrow> leg" where
  "pending_leg lp ts =
     \<lparr> ticker = Some ''W'', side = Some ''yes'', limit_price = Some lp,
       intended_count = Some 1, count = Some 0, order_id = Some ''o3'',
       timestamp = ts, status = Some ''pending'',
       filled_timestamp = None, series = Some ''KXHIGHTDC'', reprice_count = None,
       sold_price = None, sold_timestamp = None, pnl = None, cancelled_timestamp = None \<rparr>"

definition sample_hedge :: "int \<Rightarrow> string option \<Rightarrow> hedge" where
  "sample_hedge lp ts =
     \<lparr> hedge_series = ''KXHIGHTDC'', filled_key = ''V_yes'', filled_pos = leg_V_filled,
       pending_key = ''W_yes'', pending_pos = pending_leg lp ts \<rparr>"

definition quote_of :: "int \<Rightarrow> int \<Rightarrow> quote" where
  "quote_of bid ask = \<lparr> yes_ask = Some ask, yes_bid = Some bid \<rparr>"

text \<open>
  \<^verbatim>\<open>datetime.fromisoformat\<close> belongs to the Python library, and the functions above
  take it as a parameter. For closed examples, \<open>fromisoformat_seconds\<close> stands for it on
  the shape \<open>YYYY-MM-DDTHH:MM:SS\<close>: it accepts a string of that shape and rejects every
  other string. The library accepts more shapes; like this function it rejects a string
  that holds no digit.
\<close>

definition is_digit :: "char \<Rightarrow> bool" where
  "is_digit c = (c \<in> set ''0123456789'')"

fun matches_shape :: "string \<Rightarrow> string \<Rightarrow> bool" where
  "matches_shape [] [] = True"
| "matches_shape (p # ps) (c # cs) =
     ((if p = CHR ''d'' then is_digit c else c = p) \<and> matches_shape ps cs)"
| "matches_shape _ _ = False"

definition fromisoformat_seconds :: "string \<Rightarrow> string option" where
  "fromisoformat_seconds s = (if matches_shape ''dddd-dd-ddTdd:dd:dd'' s then Some s else None)"

section \<open>Hedge discovery (strategy.py)\<close>

text \<open>
  A market of the venue's event answer, with the keys that \<^verbatim>\<open>find_hedge_opportunity\<close>
  reads: the quote, and the ticker, titles and strikes. Strikes are JSON numbers.
\<close>

record market = quote +
  market_ticker :: "string option"
  yes_sub_title :: "string option"
  market_title :: "string option"
  floor_strike :: "rat option"
  cap_strike :: "rat option"

text \<open>The dictionary appended to \<^verbatim>\<open>buckets\<close> (lines 126 to 135).\<close>

record bucket =
  bucket_ticker :: "string option"
  bucket_title :: "string option"
  bucket_floor :: "rat option"
  bucket_cap :: "rat option"
  bucket_yes_ask :: int
  bucket_yes_bid :: int
  maker_price :: int
  midpoint :: rat

text \<open>
  The body of the first loop (lines 91 to 135) for one market: \<open>None\<close> is
  \<^verbatim>\<open>continue\<close>. The floor on the maker price is the literal 15 of line 113.
\<close>

definition make_bucket :: "market \<Rightarrow> bucket option" where
  "make_bucket m =
     (let title = (case yes_sub_title m of
                     None \<Rightarrow> market_title m
                   | Some s \<Rightarrow> if s = [] then market_title m else Some s);
          floor = floor_strike m;
          cap = cap_strike m;
          ask = or0 (yes_ask m);
          bid = or0 (yes_bid m)
      in if ask \<le> 0 then None
         else
           (let mp = maker_price_of bid ask in
            if mp < 15 then None
            else
              (case (floor, cap) of
                 (Some f, Some c) \<Rightarrow>
                   Some \<lparr>bucket_ticker = market_ticker m, bucket_title = title,
                         bucket_floor = floor, bucket_cap = cap, bucket_yes_ask = ask,
                         bucket_yes_bid = bid, maker_price = mp, midpoint = (f + c) / 2\<rparr>
               | (None, Some c) \<Rightarrow>
                   Some \<lparr>bucket_ticker = market_ticker m, bucket_title = title,
                         bucket_floor = floor, bucket_cap = cap, bucket_yes_ask = ask,
                         bucket_yes_bid = bid, maker_price = mp, midpoint = c - 1 / 2\<rparr>
               | (Some f, None) \<Rightarrow>
                   Some \<lparr>bucket_ticker = market_ticker m, bucket_title = title,
                         bucket_floor = floor, bucket_cap = cap, bucket_yes_ask = ask,
                         bucket_yes_bid = bid, maker_price = mp, midpoint = f + 1 / 2\<rparr>
               | (None, None) \<Rightarrow> None)))"

text \<open>
  The bucket list after \<^verbatim>\<open>buckets.sort(key=lambda x: x["midpoint"])\<close>. Python's sort
  is stable, and so is \<open>sort_key\<close>.
\<close>

definition sorted_buckets :: "market list \<Rightarrow> bucket list" where
  "sorted_buckets markets = sort_key midpoint (List.map_filter make_bucket markets)"

text \<open>The test of the second loop (lines 147 to 158) for one bucket.\<close>

definition holds_forecast :: "bucket \<Rightarrow> rat \<Rightarrow> bool" where
  "holds_forecast b forecast_temp =
     (case (bucket_floor b, bucket_cap b) of
        (Some f, Some c) \<Rightarrow> f \<le> forecast_temp \<and> forecast_temp < c
      | (None, Some c) \<Rightarrow> forecast_temp < c
      | (Some f, None) \<Rightarrow> forecast_temp \<ge> f
      | (None, None) \<Rightarrow> False)"

text \<open>The index at which a loop with \<^verbatim>\<open>break\<close> stops: that of the first hit.\<close>

fun first_index :: "('a \<Rightarrow> bool) \<Rightarrow> 'a list \<Rightarrow> nat option" where
  "first_index P [] = None"
| "first_index P (x # xs) = (if P x then Some 0 else map_option Suc (first_index P xs))"

text \<open>
  The fallback loop (lines 162 to 167): \<open>best\<close> is the pair of \<^verbatim>\<open>best_distance\<close> and
  \<^verbatim>\<open>forecast_bucket_idx\<close>, \<open>None\<close> while the distance is infinite.
\<close>

fun closest_index :: "bucket list \<Rightarrow> rat \<Rightarrow> nat \<Rightarrow> (rat \<times> nat) option \<Rightarrow> (rat \<times> nat) option" where
  "closest_index [] forecast_temp i best = best"
| "closest_index (b # bs) forecast_temp i best =
     (let distance = \<bar>midpoint b - forecast_temp\<bar> in
      case best of
        None \<Rightarrow> closest_index bs forecast_temp (Suc i) (Some (distance, i))
      | Some (best_distance, idx) \<Rightarrow>
          if distance < best_distance
          then closest_index bs forecast_temp (Suc i) (Some (distance, i))
          else closest_index bs forecast_temp (Suc i) best)"

definition forecast_bucket_idx :: "bucket list \<Rightarrow> rat \<Rightarrow> nat option" where
  "forecast_bucket_idx buckets forecast_temp =
     (case first_index (\<lambda>b. holds_forecast b forecast_temp) buckets of
        Some i \<Rightarrow> Some i
      | None \<Rightarrow> map_option snd (closest_index buckets forecast_temp 0 None))"

text \<open>Lines 176 to 186.\<close>

definition candidate_pairs :: "bucket list \<Rightarrow> nat \<Rightarrow> (nat \<times> nat \<times> string) list" where
  "candidate_pairs buckets idx =
     (if idx > 0 then [(idx - 1, idx, ''bracket_below'')] else [])
     @ (if idx + 1 < length buckets then [(idx, idx + 1, ''bracket_above'')] else [])"

record valid_pair =
  pair :: "bucket \<times> bucket"
  pair_total_cost :: int
  pair_type :: string
  coverage_score :: rat

text \<open>The body of the loop over the candidate pairs (lines 190 to 217).\<close>

definition evaluate_pair :: "bucket list \<Rightarrow> rat \<Rightarrow> nat \<times> nat \<times> string \<Rightarrow> valid_pair option" where
  "evaluate_pair buckets forecast_temp c =
     (case c of (i, j, ptype) \<Rightarrow>
        (let b1 = buckets ! i; b2 = buckets ! j in
         if maker_price b1 > MAX_BUCKET_PRICE \<or> maker_price b2 > MAX_BUCKET_PRICE then None
         else
           (let total_cost = maker_price b1 + maker_price b2 in
            if total_cost > MAX_TOTAL_COST then None
            else
              (let coverage_low = get_default (bucket_floor b1) (- 999);
                   coverage_high = get_default (bucket_cap b2) 999;
                   distance_to_low =
                     (if coverage_low \<noteq> - 999 then forecast_temp - coverage_low else 999);
                   distance_to_high =
                     (if coverage_high \<noteq> 999 then coverage_high - forecast_temp else 999)
               in Some \<lparr>pair = (b1, b2), pair_total_cost = total_cost, pair_type = ptype,
                        coverage_score = min distance_to_low distance_to_high\<rparr>))))"

text \<open>
  \<^verbatim>\<open>find_hedge_opportunity(markets, forecast_temp)\<close>. The candidate indices are within
  the list by construction, so the subscripts \<^verbatim>\<open>buckets[i]\<close> cannot raise.
\<close>

definition find_hedge_opportunity :: "market list \<Rightarrow> rat \<Rightarrow> (bucket \<times> bucket \<times> int) option" where
  "find_hedge_opportunity markets forecast_temp =
     (let buckets = sorted_buckets markets in
      case forecast_bucket_idx buckets forecast_temp of
        None \<Rightarrow> None
      | Some idx \<Rightarrow>
          (let valid_pairs =
                 List.map_filter (evaluate_pair buckets forecast_temp) (candidate_pairs buckets idx)
           in case sort_key (\<lambda>x. (- coverage_score x, pair_total_cost x)) valid_pairs of
                [] \<Rightarrow> None
              | best # _ \<Rightarrow> Some (fst (pair best), snd (pair best), pair_total_cost best)))"

subsection \<open>Sample markets\<close>

text \<open>
  A market with a bid and an ask, and the three markets of one event: 49 or below, the
  bucket from 49 to 50, and 50 or above.
\<close>

definition market_of :: "string \<Rightarrow> rat option \<Rightarrow> rat option \<Rightarrow> int \<Rightarrow> int \<Rightarrow> market" where
  "market_of t f c bid ask =
     \<lparr>yes_ask = Some ask, yes_bid = Some bid, market_ticker = Some t, yes_sub_title = None,
      market_title = Some t, floor_strike = f, cap_strike = c\<rparr>"

definition sample_markets :: "market list" where
  "sample_markets =
     [market_of ''T50'' (Some 50) None 21 23,
      market_of ''B49.5'' (Some 49) (Some 50) 37 39,
      market_of ''T49'' None (Some 49) 21 23]"

text \<open>The three buckets built from the sample markets.\<close>

definition bucket_T49 :: bucket where
  "bucket_T49 =
     \<lparr>bucket_ticker = Some ''T49'', bucket_title = Some ''T49'',
      bucket_floor = None, bucket_cap = Some 49, bucket_yes_ask = 23,
      bucket_yes_bid = 21, maker_price = 22, midpoint = 97 / 2\<rparr>"

definition bucket_B49 :: bucket where
  "bucket_B49 =
     \<lparr>bucket_ticker = Some ''B49.5'', bucket_title = Some ''B49.5'',
      bucket_floor = Some 49, bucket_cap = Some 50, bucket_yes_ask = 39,
      bucket_yes_bid = 37, maker_price = 38, midpoint = 99 / 2\<rparr>"

definition bucket_T50 :: bucket where
  "bucket_T50 =
     \<lparr>bucket_ticker = Some ''T50'', bucket_title = Some ''T50'',
      bucket_floor = Some 50, bucket_cap = None, bucket_yes_ask = 23,
      bucket_yes_bid = 21, maker_price = 22, midpoint = 101 / 2\<rparr>"

section \<open>Facts about one reconciliation pass\<close>

lemma reconcile_rec_closed: "\<not> is_open rec \<Longrightarrow> reconcile_rec pm now rec = rec"
  by (simp add: reconcile_rec_def)

lemma reconcile_rec_status:
  "is_open rec \<Longrightarrow>
     status (reconcile_rec pm now rec) = Some ''pending''
   \<or> status (reconcile_rec pm now rec) = Some ''partial''
   \<or> status (reconcile_rec pm now rec) = Some ''filled''"
  by (simp add: reconcile_rec_def Let_def)

lemma reconcile_rec_pending:
  assumes "is_open rec" and "reported_count pm rec \<le> 0"
  shows "reconcile_rec pm now rec = rec\<lparr>status := Some ''pending'', count := Some 0\<rparr>"
  using assms by (simp add: reconcile_rec_def Let_def)

lemma reconcile_rec_partial:
  assumes "is_open rec" and "0 < reported_count pm rec" and "reported_count pm rec < intended_of rec"
  shows "reconcile_rec pm now rec =
           rec\<lparr>status := Some ''partial'', count := Some (reported_count pm rec),
               filled_timestamp :=
                 (case filled_timestamp rec of None \<Rightarrow> Some now | Some ts \<Rightarrow> Some ts)\<rparr>"
  using assms by (simp add: reconcile_rec_def Let_def)

lemma reconcile_rec_filled:
  assumes "is_open rec" and "0 < reported_count pm rec" and "\<not> reported_count pm rec < intended_of rec"
  shows "status (reconcile_rec pm now rec) = Some ''filled''"
  using assms by (simp add: reconcile_rec_def Let_def)

lemma reconcile_rec_twice:
  assumes "is_open rec \<longrightarrow> intended_count rec \<noteq> None"
  shows "reconcile_rec pm now' (reconcile_rec pm now rec) = reconcile_rec pm now rec"
proof (cases "is_open rec")
  case False
  then show ?thesis by (simp add: reconcile_rec_closed)
next
  case True
  then obtain n where n: "intended_count rec = Some n" using assms by auto
  consider (pending) "reported_count pm rec \<le> 0"
    | (partial) "0 < reported_count pm rec" "reported_count pm rec < intended_of rec"
    | (filled) "0 < reported_count pm rec" "\<not> reported_count pm rec < intended_of rec"
    by linarith
  then show ?thesis
  proof cases
    case pending
    let ?r = "rec\<lparr>status := Some ''pending'', count := Some 0\<rparr>"
    have r: "reconcile_rec pm now rec = ?r"
      by (rule reconcile_rec_pending [OF True pending])
    have "is_open ?r" by (simp add: is_open_def get_default_def)
    moreover have "reported_count pm ?r \<le> 0"
      using pending by (simp add: reported_count_def)
    ultimately have "reconcile_rec pm now' ?r = ?r\<lparr>status := Some ''pending'', count := Some 0\<rparr>"
      by (rule reconcile_rec_pending)
    then show ?thesis by (simp add: r)
  next
    case partial
    let ?r = "rec\<lparr>status := Some ''partial'', count := Some (reported_count pm rec),
               filled_timestamp :=
                 (case filled_timestamp rec of None \<Rightarrow> Some now | Some ts \<Rightarrow> Some ts)\<rparr>"
    have r: "reconcile_rec pm now rec = ?r"
      by (rule reconcile_rec_partial [OF True partial])
    have o: "is_open ?r" by (simp add: is_open_def get_default_def)
    have c: "reported_count pm ?r = reported_count pm rec"
      by (simp add: reported_count_def)
    have i: "intended_of ?r = intended_of rec"
      by (simp add: intended_of_def n)
    have "reconcile_rec pm now' ?r =
            ?r\<lparr>status := Some ''partial'', count := Some (reported_count pm ?r),
               filled_timestamp :=
                 (case filled_timestamp ?r of None \<Rightarrow> Some now' | Some ts \<Rightarrow> Some ts)\<rparr>"
      using partial by (intro reconcile_rec_partial [OF o]) (simp_all only: c i)
    also have "\<dots> = ?r"
      by (cases "filled_timestamp rec") (simp_all add: reported_count_def)
    finally show ?thesis by (simp only: r)
  next
    case filled
    have "\<not> is_open (reconcile_rec pm now rec)"
      using reconcile_rec_filled [OF True filled, of now]
      by (simp add: is_open_def get_default_def)
    then show ?thesis by (rule reconcile_rec_closed)
  qed
qed

lemma reconcile_map_closed:
  "\<not> list_ex (\<lambda>(key, rec). is_open rec) ps \<Longrightarrow>
   map (\<lambda>(key, rec). (key, reconcile_rec pm (clock key) rec)) ps = ps"
  by (induction ps) (auto simp add: reconcile_rec_closed)

lemma reconcile_store:
  "fst (reconcile_pending_orders store (Inr r) clock) =
     map (\<lambda>(key, rec). (key, reconcile_rec (build_pos_map (case r of None \<Rightarrow> [] | Some ps \<Rightarrow> ps) Map.empty) (clock key) rec)) store"
  by (cases "store = []") (auto simp add: reconcile_pending_orders_def Let_def reconcile_map_closed)

lemma reconcile_returns_store:
  "snd (reconcile_pending_orders store fetch clock) = Inr (fst (reconcile_pending_orders store fetch clock))"
  by (cases fetch) (auto simp add: reconcile_pending_orders_def Let_def reconcile_map_closed)

lemma map_of_reconcile_map:
  "map_of (map (\<lambda>(key, rec). (key, f key rec)) ps) k = map_option (f k) (map_of ps k)"
  by (induction ps) auto

lemma venue_count_reported:
  "venue_count r l = reported_count (build_pos_map (case r of None \<Rightarrow> [] | Some ps \<Rightarrow> ps) Map.empty) l"
  by (simp add: reported_count_def get_default_def split: option.splits)

lemma is_open_iff: "is_open l \<longleftrightarrow> status l = Some ''pending'' \<or> status l = Some ''partial''"
  by (cases "status l") (auto simp add: is_open_def get_default_def)

lemma intended_of_cases:
  "intended_of l = (case intended_count l of
                      Some n \<Rightarrow> n
                    | None \<Rightarrow> (case count l of Some c \<Rightarrow> c | None \<Rightarrow> 0))"
  by (simp add: intended_of_def or0_def get_default_def split: option.splits)

lemma reconcile_rec_ticker: "ticker (reconcile_rec pm now l) = ticker l"
  by (simp add: reconcile_rec_def Let_def)

lemma reconcile_rec_rule:
  assumes "is_open l"
  shows "(reported_count pm l \<le> 0 \<longrightarrow>
            status (reconcile_rec pm now l) = Some ''pending'' \<and> count (reconcile_rec pm now l) = Some 0)
       \<and> (0 < reported_count pm l \<longrightarrow>
            status (reconcile_rec pm now l)
              = Some (if reported_count pm l < intended_of l then ''partial'' else ''filled'')
          \<and> count (reconcile_rec pm now l) = Some (reported_count pm l))"
  using assms by (simp add: reconcile_rec_def Let_def)

text \<open>One pass, for the record under one key.\<close>

lemma reconcile_pass_leg:
  assumes "map_of store k = Some l"
  shows "map_of (fst (reconcile_pending_orders store fetch clock)) k =
           Some (case fetch of
                   Inl e \<Rightarrow> l
                 | Inr r \<Rightarrow>
                     reconcile_rec (build_pos_map (case r of None \<Rightarrow> [] | Some ps \<Rightarrow> ps) Map.empty)
                       (clock k) l)"
proof (cases fetch)
  case (Inl e)
  then show ?thesis using assms by (auto simp add: reconcile_pending_orders_def Let_def)
next
  case (Inr r)
  then show ?thesis using assms by (simp add: reconcile_store map_of_reconcile_map)
qed

lemma reconcile_passes_append:
  "reconcile_passes store (ps @ qs) = reconcile_passes (reconcile_passes store ps) qs"
  by (induction ps arbitrary: store) auto

lemma reconcile_passes_inv:
  assumes "map_of store k = Some l"
  shows "\<exists>l'. map_of (reconcile_passes store passes) k = Some l'
           \<and> ticker l' = ticker l
           \<and> (\<not> is_open l \<longrightarrow> l' = l)
           \<and> (is_open l \<longrightarrow> status l' = Some ''pending'' \<or> status l' = Some ''partial''
                              \<or> status l' = Some ''filled'')
           \<and> (status l = Some ''partial''
                \<and> (\<forall>p \<in> set passes. \<forall>r. fst p = Inr r \<longrightarrow> 0 < venue_count r l)
                \<longrightarrow> status l' = Some ''partial'' \<or> status l' = Some ''filled'')"
  using assms
proof (induction passes arbitrary: store l)
  case Nil
  then show ?case by (auto simp add: is_open_iff)
next
  case (Cons p passes)
  obtain fetch clock where p: "p = (fetch, clock)" by (cases p)
  define l1 where
    "l1 = (case fetch of
             Inl e \<Rightarrow> l
           | Inr r \<Rightarrow>
               reconcile_rec (build_pos_map (case r of None \<Rightarrow> [] | Some ps \<Rightarrow> ps) Map.empty)
                 (clock k) l)"
  have l1: "map_of (fst (reconcile_pending_orders store fetch clock)) k = Some l1"
    unfolding l1_def by (rule reconcile_pass_leg [OF Cons.prems])
  have t1: "ticker l1 = ticker l"
    by (cases fetch) (simp_all add: l1_def reconcile_rec_ticker)
  have closed1: "l1 = l" if "\<not> is_open l"
    using that by (cases fetch) (simp_all add: l1_def reconcile_rec_closed)
  have open1: "status l1 = Some ''pending'' \<or> status l1 = Some ''partial'' \<or> status l1 = Some ''filled''"
    if "is_open l"
  proof (cases fetch)
    case (Inl e)
    then show ?thesis using that by (auto simp add: l1_def is_open_iff)
  next
    case (Inr r)
    then show ?thesis using reconcile_rec_status [OF that] by (simp add: l1_def)
  qed
  have up1: "status l1 = Some ''partial'' \<or> status l1 = Some ''filled''"
    if "status l = Some ''partial''" and "\<forall>r. fetch = Inr r \<longrightarrow> 0 < venue_count r l"
  proof (cases fetch)
    case (Inl e)
    then show ?thesis using that by (simp add: l1_def)
  next
    case (Inr r)
    have o: "is_open l" using that(1) by (simp add: is_open_iff)
    have "0 < reported_count (build_pos_map (case r of None \<Rightarrow> [] | Some ps \<Rightarrow> ps) Map.empty) l"
      using that(2) Inr by (simp add: venue_count_reported)
    then show ?thesis
      using reconcile_rec_rule [OF o, of "build_pos_map (case r of None \<Rightarrow> [] | Some ps \<Rightarrow> ps) Map.empty" "clock k"]
      by (simp add: l1_def Inr)
  qed
  obtain l' where l': "map_of (reconcile_passes (fst (reconcile_pending_orders store fetch clock)) passes) k = Some l'"
    and t': "ticker l' = ticker l1"
    and closed': "\<not> is_open l1 \<Longrightarrow> l' = l1"
    and open': "is_open l1 \<Longrightarrow> status l' = Some ''pending'' \<or> status l' = Some ''partial'' \<or> status l' = Some ''filled''"
    and up': "status l1 = Some ''partial'' \<Longrightarrow> (\<forall>p \<in> set passes. \<forall>r. fst p = Inr r \<longrightarrow> 0 < venue_count r l1)
                \<Longrightarrow> status l' = Some ''partial'' \<or> status l' = Some ''filled''"
    using Cons.IH [OF l1] by blast
  have res: "map_of (reconcile_passes store (p # passes)) k = Some l'"
    using l' by (simp add: p)
  have a: "ticker l' = ticker l" using t' t1 by simp
  have b: "l' = l" if "\<not> is_open l"
    using that closed1 closed' by auto
  have c: "status l' = Some ''pending'' \<or> status l' = Some ''partial'' \<or> status l' = Some ''filled''"
    if "is_open l"
    using open1 [OF that] open' closed' by (cases "is_open l1") auto
  have d: "status l' = Some ''partial'' \<or> status l' = Some ''filled''"
    if st: "status l = Some ''partial''"
      and pos: "\<forall>q \<in> set (p # passes). \<forall>r. fst q = Inr r \<longrightarrow> 0 < venue_count r l"
  proof -
    have "status l1 = Some ''partial'' \<or> status l1 = Some ''filled''"
      using up1 [OF st] pos by (simp add: p)
    then show ?thesis
    proof
      assume s1: "status l1 = Some ''partial''"
      have "\<forall>q \<in> set passes. \<forall>r. fst q = Inr r \<longrightarrow> 0 < venue_count r l1"
        using pos by (simp add: t1)
      then show ?thesis by (rule up' [OF s1])
    next
      assume s1: "status l1 = Some ''filled''"
      then have "\<not> is_open l1" by (simp add: is_open_iff)
      then show ?thesis using closed' s1 by simp
    qed
  qed
  show ?case using res a b c d by blast
qed

section \<open>Status transitions under reconciliation\<close>

text \<open>
  C3, as stated, fails: a leg in status \<open>partial\<close> with three contracts filled is set
  back to \<open>pending\<close> by one reconciliation pass in which the venue reports no holdings.
\<close>

theorem reconcile_regresses_partial_counterexample:
  "status leg_T_partial = Some ''partial''
   \<and> map_option status
        (map_of (reconcile_passes [(''T_yes'', leg_T_partial)]
                   [(Inr (Some []), \<lambda>k. ''2026-01-26T12:00:00'')]) ''T_yes'')
       = Some (Some ''pending'')"
  by (simp add: reconcile_pending_orders_def reconcile_rec_def leg_T_partial_def is_open_def
        intended_of_def reported_count_def Let_def get_default_def or0_def)

text \<open>
  C3, amended: for every tracked leg and every sequence of reconciliation passes, the
  status never regresses along pending, partial, filled, with one exception: a pass in
  which the venue reports a count of 0 or less for the leg's ticker sets an open leg to
  \<open>pending\<close> with count 0, also a leg that was \<open>partial\<close>. In detail, with \<open>l\<close> the leg
  at the start, \<open>l'\<close> the leg after the passes and \<open>l2\<close> the leg after one more pass:
  a leg whose status is \<open>filled\<close> or terminal (anything but \<open>pending\<close> and \<open>partial\<close>)
  is left exactly as it was; a leg in status \<open>pending\<close> or \<open>partial\<close> ends in one of
  \<open>pending\<close>, \<open>partial\<close>, \<open>filled\<close>, so reconciliation never moves a leg to a terminal
  status; a leg in status \<open>partial\<close> is never set back to \<open>pending\<close> by passes that
  fail or report a positive count for its ticker; and one more pass leaves an open leg
  unchanged when the query fails, sets it to \<open>pending\<close> with count 0 when the reported
  count is 0 or less, and otherwise sets the count to the reported count and the
  status to \<open>partial\<close> when that count is below the intended count and to \<open>filled\<close>
  when it is not.
\<close>

theorem reconcile_passes_status:
  assumes "map_of store k = Some l"
  shows "\<exists>l' l2. map_of (reconcile_passes store passes) k = Some l'
           \<and> map_of (reconcile_passes store (passes @ [(fetch, clock)])) k = Some l2
           \<and> (status l \<noteq> Some ''pending'' \<and> status l \<noteq> Some ''partial'' \<longrightarrow> l' = l)
           \<and> (status l = Some ''pending'' \<or> status l = Some ''partial'' \<longrightarrow>
                status l' = Some ''pending'' \<or> status l' = Some ''partial''
                \<or> status l' = Some ''filled'')
           \<and> (status l = Some ''partial''
                \<and> (\<forall>p \<in> set passes. \<forall>r. fst p = Inr r \<longrightarrow> 0 < venue_count r l)
                \<longrightarrow> status l' = Some ''partial'' \<or> status l' = Some ''filled'')
           \<and> (status l' \<noteq> Some ''pending'' \<and> status l' \<noteq> Some ''partial'' \<longrightarrow> l2 = l')
           \<and> (status l' = Some ''pending'' \<or> status l' = Some ''partial'' \<longrightarrow>
                (\<forall>e. fetch = Inl e \<longrightarrow> l2 = l')
              \<and> (\<forall>r. fetch = Inr r \<longrightarrow>
                    (venue_count r l' \<le> 0 \<longrightarrow> status l2 = Some ''pending'' \<and> count l2 = Some 0)
                  \<and> (0 < venue_count r l' \<longrightarrow>
                       status l2 =
                         Some (if venue_count r l'
                                    < (case intended_count l' of
                                         Some n \<Rightarrow> n
                                       | None \<Rightarrow> (case count l' of Some c \<Rightarrow> c | None \<Rightarrow> 0))
                               then ''partial'' else ''filled'')
                     \<and> count l2 = Some (venue_count r l'))))"
proof -
  obtain l' where l': "map_of (reconcile_passes store passes) k = Some l'"
    and closed: "\<not> is_open l \<Longrightarrow> l' = l"
    and opened: "is_open l \<Longrightarrow> status l' = Some ''pending'' \<or> status l' = Some ''partial'' \<or> status l' = Some ''filled''"
    and up: "status l = Some ''partial''
                \<and> (\<forall>p \<in> set passes. \<forall>r. fst p = Inr r \<longrightarrow> 0 < venue_count r l)
                \<Longrightarrow> status l' = Some ''partial'' \<or> status l' = Some ''filled''"
    using reconcile_passes_inv [OF assms, of passes] by blast
  define l2 where
    "l2 = (case fetch of
             Inl e \<Rightarrow> l'
           | Inr r \<Rightarrow>
               reconcile_rec (build_pos_map (case r of None \<Rightarrow> [] | Some ps \<Rightarrow> ps) Map.empty)
                 (clock k) l')"
  have l2: "map_of (reconcile_passes store (passes @ [(fetch, clock)])) k = Some l2"
    using reconcile_pass_leg [OF l', of fetch clock]
    by (simp add: reconcile_passes_append l2_def)
  have closed2: "l2 = l'" if "\<not> is_open l'"
    using that by (cases fetch) (simp_all add: l2_def reconcile_rec_closed)
  have fail2: "l2 = l'" if "fetch = Inl e" for e
    using that by (simp add: l2_def)
  have rule2: "(venue_count r l' \<le> 0 \<longrightarrow> status l2 = Some ''pending'' \<and> count l2 = Some 0)
             \<and> (0 < venue_count r l' \<longrightarrow>
                   status l2 =
                     Some (if venue_count r l'
                                < (case intended_count l' of
                                     Some n \<Rightarrow> n
                                   | None \<Rightarrow> (case count l' of Some c \<Rightarrow> c | None \<Rightarrow> 0))
                           then ''partial'' else ''filled'')
                 \<and> count l2 = Some (venue_count r l'))"
    if "is_open l'" and "fetch = Inr r" for r
    using reconcile_rec_rule [OF that(1), of "build_pos_map (case r of None \<Rightarrow> [] | Some ps \<Rightarrow> ps) Map.empty" "clock k"]
    unfolding l2_def that(2) venue_count_reported intended_of_cases [symmetric]
    by simp
  have A: "status l \<noteq> Some ''pending'' \<and> status l \<noteq> Some ''partial'' \<longrightarrow> l' = l"
    using closed by (simp add: is_open_iff)
  have B: "status l = Some ''pending'' \<or> status l = Some ''partial'' \<longrightarrow>
             status l' = Some ''pending'' \<or> status l' = Some ''partial'' \<or> status l' = Some ''filled''"
    using opened by (simp add: is_open_iff)
  have C: "status l = Some ''partial''
             \<and> (\<forall>p \<in> set passes. \<forall>r. fst p = Inr r \<longrightarrow> 0 < venue_count r l)
             \<longrightarrow> status l' = Some ''partial'' \<or> status l' = Some ''filled''"
    using up by blast
  have D: "status l' \<noteq> Some ''pending'' \<and> status l' \<noteq> Some ''partial'' \<longrightarrow> l2 = l'"
    using closed2 by (simp add: is_open_iff)
  have E: "status l' = Some ''pending'' \<or> status l' = Some ''partial'' \<longrightarrow>
             (\<forall>e. fetch = Inl e \<longrightarrow> l2 = l')
           \<and> (\<forall>r. fetch = Inr r \<longrightarrow>
                 (venue_count r l' \<le> 0 \<longrightarrow> status l2 = Some ''pending'' \<and> count l2 = Some 0)
               \<and> (0 < venue_count r l' \<longrightarrow>
                    status l2 =
                      Some (if venue_count r l'
                                 < (case intended_count l' of
                                      Some n \<Rightarrow> n
                                    | None \<Rightarrow> (case count l' of Some c \<Rightarrow> c | None \<Rightarrow> 0))
                            then ''partial'' else ''filled'')
                  \<and> count l2 = Some (venue_count r l')))"
  proof (intro impI conjI allI)
    fix e assume "fetch = Inl e"
    then show "l2 = l'" by (rule fail2)
  next
    fix r
    assume o: "status l' = Some ''pending'' \<or> status l' = Some ''partial''" and f: "fetch = Inr r"
    have o': "is_open l'" using o by (simp add: is_open_iff)
    {
      assume "venue_count r l' \<le> 0"
      then show "status l2 = Some ''pending''" using rule2 [OF o' f] by blast
    next
      assume "venue_count r l' \<le> 0"
      then show "count l2 = Some 0" using rule2 [OF o' f] by blast
    next
      assume "0 < venue_count r l'"
      then show "status l2 =
                      Some (if venue_count r l'
                                 < (case intended_count l' of
                                      Some n \<Rightarrow> n
                                    | None \<Rightarrow> (case count l' of Some c \<Rightarrow> c | None \<Rightarrow> 0))
                            then ''partial'' else ''filled'')" using rule2 [OF o' f] by blast
    next
      assume "0 < venue_count r l'"
      then show "count l2 = Some (venue_count r l')" using rule2 [OF o' f] by blast
    }
  qed
  show ?thesis
    by (intro exI conjI) (rule l' l2 A B C D E)+
qed

theorem reconcile_passes_status_witness:
  "map_of two_legs ''T_yes'' = Some leg_T_partial
   \<and> status leg_T_partial = Some ''partial''
   \<and> map_option (\<lambda>l. (status l, count l))
        (map_of (reconcile_passes two_legs
                   [(Inr (Some [holding_of ''T'' 4]), \<lambda>k. ''2026-01-26T12:00:00'')]) ''T_yes'')
       = Some (Some ''partial'', Some 4)
   \<and> map_option (\<lambda>l. (status l, count l))
        (map_of (reconcile_passes two_legs
                   ([(Inr (Some [holding_of ''T'' 4]), \<lambda>k. ''2026-01-26T12:00:00'')]
                    @ [(Inr (Some [holding_of ''T'' 5]), \<lambda>k. ''2026-01-26T12:05:00'')])) ''T_yes'')
       = Some (Some ''filled'', Some 5)
   \<and> map_option (\<lambda>l. (status l, count l))
        (map_of (reconcile_passes two_legs
                   ([(Inr (Some [holding_of ''T'' 4]), \<lambda>k. ''2026-01-26T12:00:00'')]
                    @ [(Inr (Some []), \<lambda>k. ''2026-01-26T12:05:00'')])) ''T_yes'')
       = Some (Some ''pending'', Some 0)
   \<and> map_option (\<lambda>l. (status l, count l))
        (map_of (reconcile_passes two_legs
                   ([(Inr (Some [holding_of ''T'' 4]), \<lambda>k. ''2026-01-26T12:00:00'')]
                    @ [(Inl RequestException, \<lambda>k. ''2026-01-26T12:05:00'')])) ''T_yes'')
       = Some (Some ''partial'', Some 4)
   \<and> map_of two_legs ''V_yes'' = Some leg_V_filled
   \<and> status leg_V_filled = Some ''filled''
   \<and> map_of (reconcile_passes two_legs
                ([(Inr (Some [holding_of ''T'' 4]), \<lambda>k. ''2026-01-26T12:00:00'')]
                 @ [(Inr (Some []), \<lambda>k. ''2026-01-26T12:05:00'')])) ''V_yes''
       = Some leg_V_filled"
proof -
  have h: "map_of two_legs ''T_yes'' = Some leg_T_partial"
    by (simp add: two_legs_def)
  have g: "map_of two_legs ''V_yes'' = Some leg_V_filled"
    by (simp add: two_legs_def)
  note defs = two_legs_def reconcile_pending_orders_def reconcile_rec_def leg_T_partial_def
    leg_V_filled_def holding_of_def holding_c_def is_open_def intended_of_def
    reported_count_def Let_def get_default_def or0_def
  show ?thesis
    using reconcile_passes_status [OF h,
            of "[(Inr (Some [holding_of ''T'' 4]), \<lambda>k. ''2026-01-26T12:00:00'')]"
               "Inr (Some [holding_of ''T'' 5])" "\<lambda>k. ''2026-01-26T12:05:00''"]
          reconcile_passes_status [OF h,
            of "[(Inr (Some [holding_of ''T'' 4]), \<lambda>k. ''2026-01-26T12:00:00'')]"
               "Inr (Some [])" "\<lambda>k. ''2026-01-26T12:05:00''"]
          reconcile_passes_status [OF h,
            of "[(Inr (Some [holding_of ''T'' 4]), \<lambda>k. ''2026-01-26T12:00:00'')]"
               "Inl RequestException" "\<lambda>k. ''2026-01-26T12:05:00''"]
          reconcile_passes_status [OF g,
            of "[(Inr (Some [holding_of ''T'' 4]), \<lambda>k. ''2026-01-26T12:00:00'')]"
               "Inr (Some [])" "\<lambda>k. ''2026-01-26T12:05:00''"]
    by (simp add: defs)
qed

section \<open>Idempotence of reconciliation\<close>

text \<open>
  C4, as stated, fails: the store holds a partial leg without the key
  \<^verbatim>\<open>intended_count\<close> and with count 5, and the venue reports 3 contracts. The first
  pass takes 5 as the intended count and stores status \<open>partial\<close> with count 3; the
  second pass, with the same snapshot, takes the stored 3 as the intended count and
  changes the leg to \<open>filled\<close> with a new fill timestamp.
\<close>

theorem reconcile_twice_counterexample:
  "fst (reconcile_pending_orders
          (fst (reconcile_pending_orders [(''U_yes'', leg_U_legacy)]
                  (Inr (Some [holding_of ''U'' 3])) (\<lambda>k. ''2026-01-26T12:00:00'')))
          (Inr (Some [holding_of ''U'' 3])) (\<lambda>k. ''2026-01-26T12:05:00''))
     \<noteq> fst (reconcile_pending_orders [(''U_yes'', leg_U_legacy)]
                  (Inr (Some [holding_of ''U'' 3])) (\<lambda>k. ''2026-01-26T12:00:00''))"
  by (simp add: reconcile_pending_orders_def reconcile_rec_def leg_U_legacy_def holding_of_def
        holding_c_def is_open_def intended_of_def reported_count_def Let_def get_default_def or0_def)

text \<open>
  C4, amended: for every position store in which each leg in status \<open>pending\<close> or
  \<open>partial\<close> carries the key \<^verbatim>\<open>intended_count\<close> (as every leg written by
  \<^verbatim>\<open>add_pending_order\<close> does) and for every outcome of the holdings query, a second
  reconciliation with the same outcome, at any later clock, stores and returns exactly
  the document the first one stored: no status, count or fill timestamp changes.
\<close>

theorem reconcile_idempotent:
  assumes "\<forall>(key, rec) \<in> set store. is_open rec \<longrightarrow> intended_count rec \<noteq> None"
  shows "reconcile_pending_orders (fst (reconcile_pending_orders store fetch clock)) fetch clock'
           = (fst (reconcile_pending_orders store fetch clock),
              Inr (fst (reconcile_pending_orders store fetch clock)))"
proof (cases fetch)
  case (Inl e)
  then show ?thesis by (simp add: reconcile_pending_orders_def)
next
  case (Inr r)
  define pm where "pm = build_pos_map (case r of None \<Rightarrow> [] | Some ps \<Rightarrow> ps) Map.empty"
  have twice: "map (\<lambda>(key, rec). (key, reconcile_rec pm (clock' key) rec))
                 (map (\<lambda>(key, rec). (key, reconcile_rec pm (clock key) rec)) store)
               = map (\<lambda>(key, rec). (key, reconcile_rec pm (clock key) rec)) store"
    using assms by (induction store) (auto simp add: reconcile_rec_twice)
  have "fst (reconcile_pending_orders (fst (reconcile_pending_orders store fetch clock)) fetch clock')
          = fst (reconcile_pending_orders store fetch clock)"
    using twice by (simp add: Inr reconcile_store pm_def)
  then show ?thesis
    by (metis prod.collapse reconcile_returns_store)
qed

theorem reconcile_idempotent_witness:
  "is_open leg_T_partial \<and> intended_count leg_T_partial = Some 5
   \<and> reconcile_pending_orders
        (fst (reconcile_pending_orders [(''T_yes'', leg_T_partial)]
                (Inr (Some [holding_of ''T'' 5])) (\<lambda>k. ''2026-01-26T12:00:00'')))
        (Inr (Some [holding_of ''T'' 5])) (\<lambda>k. ''2026-01-26T12:05:00'')
      = ([(''T_yes'', leg_T_partial\<lparr>status := Some ''filled'', count := Some 5,
                                     filled_timestamp := Some ''2026-01-26T12:00:00''\<rparr>)],
         Inr [(''T_yes'', leg_T_partial\<lparr>status := Some ''filled'', count := Some 5,
                                        filled_timestamp := Some ''2026-01-26T12:00:00''\<rparr>)])"
proof -
  have h: "\<forall>(key, rec) \<in> set [(''T_yes'', leg_T_partial)]. is_open rec \<longrightarrow> intended_count rec \<noteq> None"
    by (simp add: leg_T_partial_def)
  have o: "is_open leg_T_partial"
    by (simp add: is_open_def leg_T_partial_def get_default_def)
  have v: "fst (reconcile_pending_orders [(''T_yes'', leg_T_partial)]
                (Inr (Some [holding_of ''T'' 5])) (\<lambda>k. ''2026-01-26T12:00:00''))
     = [(''T_yes'', leg_T_partial\<lparr>status := Some ''filled'', count := Some 5,
                                     filled_timestamp := Some ''2026-01-26T12:00:00''\<rparr>)]"
    by (simp add: reconcile_pending_orders_def reconcile_rec_def leg_T_partial_def holding_of_def
          holding_c_def is_open_def intended_of_def reported_count_def Let_def get_default_def or0_def)
  have i: "intended_count leg_T_partial = Some 5"
    by (simp add: leg_T_partial_def)
  show ?thesis
    using o i reconcile_idempotent [OF h, of "Inr (Some [holding_of ''T'' 5])"
        "\<lambda>k. ''2026-01-26T12:00:00''" "\<lambda>k. ''2026-01-26T12:05:00''"]
    by (simp only: v)
qed

section \<open>Recording an intended order\<close>

text \<open>
  C5, as stated, fails: the store holds the key \<open>T_yes\<close> with the non-terminal status
  \<open>partial\<close> and three contracts filled; recording an order for the same ticker and side
  returns normally and the record under the key is no longer the one that was there.
\<close>

theorem add_pending_order_duplicate_counterexample:
  "map_of (add_pending_order [(''T_yes'', leg_T_partial)] ''T'' ''yes'' 31 1 None
             ''2026-01-26T11:00:00'') ''T_yes''
     \<noteq> Some leg_T_partial
   \<and> map_of (add_pending_order [(''T_yes'', leg_T_partial)] ''T'' ''yes'' 31 1 None
             ''2026-01-26T11:00:00'') ''T_yes''
     = Some \<lparr> ticker = Some ''T'', side = Some ''yes'', limit_price = Some 31,
              intended_count = Some 1, count = Some 0, order_id = None,
              timestamp = Some ''2026-01-26T11:00:00'', status = Some ''pending'',
              filled_timestamp = None, series = None, reprice_count = None,
              sold_price = None, sold_timestamp = None, pnl = None,
              cancelled_timestamp = None \<rparr>"
  by (simp add: add_pending_order_def position_key_def leg_T_partial_def)

text \<open>
  C5, amended: recording an intended order has no failure path. For every store and
  every key, fresh or already present with any status, the record stored under
  \<open>ticker_side\<close> afterwards is a leg in status \<open>pending\<close> with count 0 that carries the
  given limit price, intended count and order id, and every other key keeps its record.
\<close>

theorem add_pending_order_overwrites:
  "map_of (add_pending_order positions t s lp ic oid now) =
     (map_of positions)(position_key t s \<mapsto>
        \<lparr> ticker = Some t, side = Some s, limit_price = Some lp, intended_count = Some ic,
          count = Some 0, order_id = oid, timestamp = Some now, status = Some ''pending'',
          filled_timestamp = None, series = None, reprice_count = None, sold_price = None,
          sold_timestamp = None, pnl = None, cancelled_timestamp = None \<rparr>)"
  by (simp add: add_pending_order_def update_conv')

section \<open>A failed holdings query\<close>

text \<open>
  C8, as stated, fails: with one tracked leg and a holdings query that raises, the call
  returns normally (\<open>Inr\<close>), it does not hand the exception to its caller.
\<close>

theorem reconcile_fetch_failure_counterexample:
  "snd (reconcile_pending_orders [(''T_yes'', leg_T_partial)] (Inl RequestException) (\<lambda>k. ''now''))
     \<noteq> Inl RequestException
   \<and> snd (reconcile_pending_orders [(''T_yes'', leg_T_partial)] (Inl RequestException) (\<lambda>k. ''now''))
     = Inr [(''T_yes'', leg_T_partial)]"
  by (simp add: reconcile_pending_orders_def Let_def)

text \<open>
  C8, amended: if the holdings query raises, reconciliation leaves the stored document
  as it was and returns the unchanged records to its caller normally; the exception is
  caught inside and does not propagate.
\<close>

theorem reconcile_fetch_failure_unchanged:
  "reconcile_pending_orders store (Inl e) clock = (store, Inr store)"
  by (simp add: reconcile_pending_orders_def)

section \<open>Realized P&L in the ledger\<close>

lemma find_replace_trade:
  "find_trade trades tid = Some t \<Longrightarrow> trade_id t' = tid \<Longrightarrow>
   find_trade (replace_trade trades tid t') tid = Some t'"
  by (induction trades) (auto split: if_splits)

lemma find_trade_id: "find_trade trades tid = Some t \<Longrightarrow> trade_id t = tid"
  by (induction trades) (auto split: if_splits)

text \<open>
  C2: for every trade record of the ledger, found by its id: recording a win (the
  winning key names one of the two legs) succeeds and sets the trade's P&L to 100 minus
  its total entry cost, whatever the sold price; recording a loss sets it to the negated
  total entry cost; recording a de-risk sets it to the sold price minus the entry price
  of the sold leg, where the sold leg is the first leg when the sold key is its key and
  the second leg otherwise, and its entry price is its fill price when that is present
  and not 0, and else its order price (0 when absent). The witness shows a de-risk P&L
  of each sign, for either leg, and for a leg without fill price.
\<close>

theorem record_pnl:
  assumes "find_trade trades tid = Some t"
  shows "(leg_key (leg1 t) = wk \<or> leg_key (leg2 t) = wk \<longrightarrow>
            snd (record_win trades tid wk temp sold now) = True
          \<and> map_option trade_pnl (find_trade (fst (record_win trades tid wk temp sold now)) tid)
              = Some (Some (100 - total_cost t)))
       \<and> snd (record_loss trades tid temp' now') = True
       \<and> map_option trade_pnl (find_trade (fst (record_loss trades tid temp' now')) tid)
              = Some (Some (- total_cost t))
       \<and> snd (record_derisk trades tid sk sold' ck now'') = True
       \<and> map_option trade_pnl (find_trade (fst (record_derisk trades tid sk sold' ck now'')) tid)
              = (let sold_leg = (if leg_key (leg1 t) = sk then leg1 t else leg2 t);
                     order = (case order_price sold_leg of None \<Rightarrow> 0 | Some p \<Rightarrow> p)
                 in Some (Some (sold' - (case fill_price sold_leg of
                                           None \<Rightarrow> order
                                         | Some fp \<Rightarrow> if fp = 0 then order else fp))))"
  using assms find_trade_id [OF assms]
  by (auto simp add: record_win_def record_loss_def record_derisk_def Let_def entry_price_def
        or0_def get_default_def find_replace_trade split: option.splits)

theorem record_pnl_witness:
  "find_trade [sample_trade, sample_trade_unfilled] ''KXHIGHTDC_2026-01-22'' = Some sample_trade
   \<and> leg_key (leg1 sample_trade) = ''A_yes''
   \<and> map_option trade_pnl
        (find_trade (fst (record_win [sample_trade, sample_trade_unfilled] ''KXHIGHTDC_2026-01-22''
                            ''A_yes'' None 97 ''n'')) ''KXHIGHTDC_2026-01-22'')
       = Some (Some 40)
   \<and> map_option trade_pnl
        (find_trade (fst (record_loss [sample_trade, sample_trade_unfilled] ''KXHIGHTDC_2026-01-22''
                            None ''n'')) ''KXHIGHTDC_2026-01-22'')
       = Some (Some (- 60))
   \<and> map_option trade_pnl
        (find_trade (fst (record_derisk [sample_trade, sample_trade_unfilled] ''KXHIGHTDC_2026-01-22''
                            ''A_yes'' 45 ''B_yes'' ''n'')) ''KXHIGHTDC_2026-01-22'')
       = Some (Some 7)
   \<and> map_option trade_pnl
        (find_trade (fst (record_derisk [sample_trade, sample_trade_unfilled] ''KXHIGHTDC_2026-01-22''
                            ''B_yes'' 14 ''A_yes'' ''n'')) ''KXHIGHTDC_2026-01-22'')
       = Some (Some (- 8))
   \<and> find_trade [sample_trade, sample_trade_unfilled] ''KXHIGHTDC_2026-01-23''
       = Some sample_trade_unfilled
   \<and> map_option trade_pnl
        (find_trade (fst (record_derisk [sample_trade, sample_trade_unfilled] ''KXHIGHTDC_2026-01-23''
                            ''C_yes'' 45 ''D_yes'' ''n'')) ''KXHIGHTDC_2026-01-23'')
       = Some (Some 5)"
proof -
  have h: "find_trade [sample_trade, sample_trade_unfilled] ''KXHIGHTDC_2026-01-22'' = Some sample_trade"
    by (simp add: sample_trade_def)
  have u: "find_trade [sample_trade, sample_trade_unfilled] ''KXHIGHTDC_2026-01-23''
             = Some sample_trade_unfilled"
    by (simp add: sample_trade_def sample_trade_unfilled_def)
  have f: "leg_key (leg1 sample_trade) = ''A_yes''" "total_cost sample_trade = 60"
    "leg1 sample_trade = sample_leg ''A_yes'' 38" "leg2 sample_trade = sample_leg ''B_yes'' 22"
    "leg1 sample_trade_unfilled = unfilled_leg ''C_yes'' 40"
    "\<And>k p. leg_key (sample_leg k p) = k" "\<And>k p. fill_price (sample_leg k p) = Some p"
    "\<And>k p. order_price (sample_leg k p) = Some p"
    "\<And>k p. leg_key (unfilled_leg k p) = k" "\<And>k p. fill_price (unfilled_leg k p) = None"
    "\<And>k p. order_price (unfilled_leg k p) = Some p"
    by (simp_all add: sample_trade_def sample_trade_unfilled_def sample_leg_def unfilled_leg_def)
  show ?thesis
    using h u
      record_pnl [OF h, where wk = "''A_yes''" and temp = None and sold = 97 and now = "''n''"
         and temp' = None and now' = "''n''" and sk = "''A_yes''" and sold' = 45
         and ck = "''B_yes''" and now'' = "''n''"]
      record_pnl [OF h, where wk = "''A_yes''" and temp = None and sold = 97 and now = "''n''"
         and temp' = None and now' = "''n''" and sk = "''B_yes''" and sold' = 14
         and ck = "''A_yes''" and now'' = "''n''"]
      record_pnl [OF u, where wk = "''C_yes''" and temp = None and sold = 97 and now = "''n''"
         and temp' = None and now' = "''n''" and sk = "''C_yes''" and sold' = 45
         and ck = "''D_yes''" and now'' = "''n''"]
    by (simp add: f Let_def)
qed

section \<open>The partial-fill decision\<close>

lemma evaluate_with_quote:
  assumes "ticker (pending_pos h) = Some pt" and "ticker (filled_pos h) = Some ft"
  shows "evaluate_partial_fill h hours (Inr (Some pr)) =
     (let original_limit = get_default (limit_price (pending_pos h)) 0;
          nmp = maker_price_of (or0 (yes_bid pr)) (or0 (yes_ask pr))
      in if hours_below hours 2 then Inr \<lparr>action = ''derisk'', new_maker_price = Some nmp\<rparr>
         else if hours_below hours 6 then
           Inr \<lparr>action = (if nmp \<le> original_limit + REPRICE_INCREMENT then ''reprice'' else ''derisk''),
                new_maker_price = Some nmp\<rparr>
         else if nmp - original_limit \<le> 0 then Inr \<lparr>action = ''wait'', new_maker_price = Some nmp\<rparr>
         else if nmp - original_limit = 1 then Inr \<lparr>action = ''reprice'', new_maker_price = Some nmp\<rparr>
         else Inr \<lparr>action = (if get_default (limit_price (filled_pos h)) 0 + nmp \<le> MAX_TOTAL_COST
                              then ''reprice'' else ''derisk''),
                   new_maker_price = Some nmp\<rparr>)"
  using assms by (simp add: evaluate_partial_fill_def Let_def)

lemma sample_hedge_tickers:
  "ticker (pending_pos (sample_hedge lp ts)) = Some ''W''"
  "ticker (filled_pos (sample_hedge lp ts)) = Some ''V''"
  "get_default (limit_price (pending_pos (sample_hedge lp ts))) 0 = lp"
  "get_default (limit_price (filled_pos (sample_hedge lp ts))) 0 = 38"
  "timestamp (pending_pos (sample_hedge lp ts)) = ts"
  by (simp_all add: sample_hedge_def pending_leg_def leg_V_filled_def get_default_def)

lemma quote_of_simps:
  "or0 (yes_bid (quote_of b a)) = b" "or0 (yes_ask (quote_of b a)) = a"
  by (simp_all add: quote_of_def or0_def)

text \<open>
  C6, as stated, fails: with one and a half hours to close and a price query that the
  venue does not answer, the decision is \<open>wait\<close>, not \<open>derisk\<close>.
\<close>

theorem derisk_unconditional_counterexample:
  "evaluate_partial_fill (sample_hedge 30 (Some ''2026-01-26T22:00:00'')) (Some (3 / 2)) (Inr None)
     = Inr \<lparr>action = ''wait'', new_maker_price = None\<rparr>"
  by (simp add: evaluate_partial_fill_def sample_hedge_def pending_leg_def)

text \<open>
  C6, amended: for every partial hedge (both legs carrying their ticker) for which the
  price query returned a quote: if fewer than 2 hours remain, the decision is \<open>derisk\<close>
  whatever the quoted prices; if at least 2 and fewer than 6 hours remain, the decision is
  \<open>reprice\<close> to the candidate maker price when that price is no more than the reprice
  increment above the original limit, and \<open>derisk\<close> otherwise.
\<close>

theorem close_proximity_policy:
  assumes "ticker (pending_pos h) = Some pt" and "ticker (filled_pos h) = Some ft"
  shows "(hrs < 2 \<longrightarrow>
            evaluate_partial_fill h (Some hrs) (Inr (Some pr))
              = Inr \<lparr>action = ''derisk'',
                     new_maker_price = Some (maker_price_of (or0 (yes_bid pr)) (or0 (yes_ask pr)))\<rparr>)
       \<and> (2 \<le> hrs \<and> hrs < 6 \<longrightarrow>
            evaluate_partial_fill h (Some hrs) (Inr (Some pr))
              = Inr \<lparr>action =
                       (if maker_price_of (or0 (yes_bid pr)) (or0 (yes_ask pr))
                             \<le> get_default (limit_price (pending_pos h)) 0 + REPRICE_INCREMENT
                        then ''reprice'' else ''derisk''),
                     new_maker_price = Some (maker_price_of (or0 (yes_bid pr)) (or0 (yes_ask pr)))\<rparr>)"
  by (simp add: evaluate_with_quote [OF assms] hours_below_def Let_def)

theorem close_proximity_policy_witness:
  "evaluate_partial_fill (sample_hedge 30 None) (Some (3 / 2)) (Inr (Some (quote_of 35 37)))
     = Inr \<lparr>action = ''derisk'', new_maker_price = Some 36\<rparr>
   \<and> evaluate_partial_fill (sample_hedge 30 None) (Some 4) (Inr (Some (quote_of 30 32)))
     = Inr \<lparr>action = ''reprice'', new_maker_price = Some 31\<rparr>
   \<and> evaluate_partial_fill (sample_hedge 30 None) (Some 4) (Inr (Some (quote_of 35 37)))
     = Inr \<lparr>action = ''derisk'', new_maker_price = Some 36\<rparr>"
  using close_proximity_policy [OF sample_hedge_tickers(1,2), of "3 / 2" 30 None "quote_of 35 37"]
        close_proximity_policy [OF sample_hedge_tickers(1,2), of 4 30 None "quote_of 30 32"]
        close_proximity_policy [OF sample_hedge_tickers(1,2), of 4 30 None "quote_of 35 37"]
  by (simp add: sample_hedge_tickers quote_of_simps maker_price_of_def REPRICE_INCREMENT_def)

text \<open>
  C7: for every partial hedge (both legs carrying their ticker, quote obtained) with at
  least 6 hours until close, with delta the candidate maker price minus the original
  limit: delta at most 0 gives \<open>wait\<close>; delta 1 gives \<open>reprice\<close>; a larger delta gives
  \<open>reprice\<close> when the filled leg's price plus the candidate is at most
  \<open>MAX_TOTAL_COST\<close>, and \<open>derisk\<close> otherwise.
\<close>

theorem normal_horizon_policy:
  assumes "ticker (pending_pos h) = Some pt" and "ticker (filled_pos h) = Some ft"
    and "6 \<le> hrs"
    and "candidate = maker_price_of (or0 (yes_bid pr)) (or0 (yes_ask pr))"
    and "delta = candidate - get_default (limit_price (pending_pos h)) 0"
  shows "(delta \<le> 0 \<longrightarrow>
            evaluate_partial_fill h (Some hrs) (Inr (Some pr))
              = Inr \<lparr>action = ''wait'', new_maker_price = Some candidate\<rparr>)
       \<and> (delta = 1 \<longrightarrow>
            evaluate_partial_fill h (Some hrs) (Inr (Some pr))
              = Inr \<lparr>action = ''reprice'', new_maker_price = Some candidate\<rparr>)
       \<and> (1 < delta \<longrightarrow>
            evaluate_partial_fill h (Some hrs) (Inr (Some pr))
              = Inr \<lparr>action =
                       (if get_default (limit_price (filled_pos h)) 0 + candidate \<le> MAX_TOTAL_COST
                        then ''reprice'' else ''derisk''),
                     new_maker_price = Some candidate\<rparr>)"
  using assms(3-5) by (simp add: evaluate_with_quote [OF assms(1,2)] hours_below_def Let_def)

theorem normal_horizon_policy_witness:
  "evaluate_partial_fill (sample_hedge 30 None) (Some 8) (Inr (Some (quote_of 28 30)))
     = Inr \<lparr>action = ''wait'', new_maker_price = Some 29\<rparr>
   \<and> evaluate_partial_fill (sample_hedge 30 None) (Some 8) (Inr (Some (quote_of 30 32)))
     = Inr \<lparr>action = ''reprice'', new_maker_price = Some 31\<rparr>
   \<and> evaluate_partial_fill (sample_hedge 30 None) (Some 8) (Inr (Some (quote_of 35 37)))
     = Inr \<lparr>action = ''reprice'', new_maker_price = Some 36\<rparr>
   \<and> evaluate_partial_fill (sample_hedge 30 None) (Some 8) (Inr (Some (quote_of 70 72)))
     = Inr \<lparr>action = ''derisk'', new_maker_price = Some 71\<rparr>"
proof -
  have six: "(6::rat) \<le> 8" by simp
  have c1: "(29::int) = maker_price_of (or0 (yes_bid (quote_of 28 30))) (or0 (yes_ask (quote_of 28 30)))"
    by (simp add: quote_of_simps maker_price_of_def)
  have c2: "(31::int) = maker_price_of (or0 (yes_bid (quote_of 30 32))) (or0 (yes_ask (quote_of 30 32)))"
    by (simp add: quote_of_simps maker_price_of_def)
  have c3: "(36::int) = maker_price_of (or0 (yes_bid (quote_of 35 37))) (or0 (yes_ask (quote_of 35 37)))"
    by (simp add: quote_of_simps maker_price_of_def)
  have c4: "(71::int) = maker_price_of (or0 (yes_bid (quote_of 70 72))) (or0 (yes_ask (quote_of 70 72)))"
    by (simp add: quote_of_simps maker_price_of_def)
  have d1: "(-1::int) = 29 - get_default (limit_price (pending_pos (sample_hedge 30 None))) 0"
    by (simp add: sample_hedge_tickers)
  have d2: "(1::int) = 31 - get_default (limit_price (pending_pos (sample_hedge 30 None))) 0"
    by (simp add: sample_hedge_tickers)
  have d3: "(6::int) = 36 - get_default (limit_price (pending_pos (sample_hedge 30 None))) 0"
    by (simp add: sample_hedge_tickers)
  have d4: "(41::int) = 71 - get_default (limit_price (pending_pos (sample_hedge 30 None))) 0"
    by (simp add: sample_hedge_tickers)
  show ?thesis
    using normal_horizon_policy [OF sample_hedge_tickers(1,2) six c1 d1]
          normal_horizon_policy [OF sample_hedge_tickers(1,2) six c2 d2]
          normal_horizon_policy [OF sample_hedge_tickers(1,2) six c3 d3]
          normal_horizon_policy [OF sample_hedge_tickers(1,2) six c4 d4]
    by (simp add: sample_hedge_tickers MAX_TOTAL_COST_def)
qed

section \<open>The wait-period gate\<close>

text \<open>
  A leg without order timestamp (the key is absent or holds the empty string) has an
  infinite time since its order and is never deferred by the wait-period gate: for every
  hours-to-close and every outcome of the price query the monitor's decision is that of
  \<^verbatim>\<open>evaluate_partial_fill\<close>.
\<close>

lemma no_timestamp_never_deferred:
  assumes "timestamp (pending_pos h) = None \<or> timestamp (pending_pos h) = Some []"
    and "ticker (pending_pos h) = Some pt" and "ticker (filled_pos h) = Some ft"
  shows "get_time_since_order fromisoformat since (pending_pos h) = Inr Infinite
       \<and> monitor_decision fromisoformat since h hours prices = evaluate_partial_fill h hours prices"
  using assms by (auto simp add: monitor_decision_def get_time_since_order_def Let_def)

text \<open>
  With 20 hours to close the dwell time is 120 minutes, and the leg without timestamp
  is evaluated at once.
\<close>

lemma no_timestamp_example:
  "timestamp (pending_pos (sample_hedge 30 None)) = None
   \<and> get_wait_minutes_for_hours (Some 20) = 120
   \<and> get_time_since_order fromisoformat_seconds (\<lambda>d. Inr 90) (pending_pos (sample_hedge 30 None))
       = Inr Infinite
   \<and> monitor_decision fromisoformat_seconds (\<lambda>d. Inr 90) (sample_hedge 30 None) (Some 20)
        (Inr (Some (quote_of 35 37)))
       = Inr \<lparr>action = ''reprice'', new_maker_price = Some 36\<rparr>"
proof -
  have t: "timestamp (pending_pos (sample_hedge 30 None)) = None
           \<or> timestamp (pending_pos (sample_hedge 30 None)) = Some []"
    by (simp add: sample_hedge_tickers)
  have w: "get_wait_minutes_for_hours (Some 20) = 120"
    by (simp add: get_wait_minutes_for_hours_def)
  have e: "evaluate_partial_fill (sample_hedge 30 None) (Some 20) (Inr (Some (quote_of 35 37)))
             = Inr \<lparr>action = ''reprice'', new_maker_price = Some 36\<rparr>"
    by (simp add: evaluate_with_quote [OF sample_hedge_tickers(1,2)] hours_below_def Let_def
          sample_hedge_tickers quote_of_simps maker_price_of_def MAX_TOTAL_COST_def)
  show ?thesis
    using no_timestamp_never_deferred [OF t sample_hedge_tickers(1,2),
            of fromisoformat_seconds "\<lambda>d. Inr 90" "Some 20" "Inr (Some (quote_of 35 37))"]
    by (simp add: sample_hedge_tickers w e)
qed

text \<open>
  C10: the code does not do for the unparseable timestamp what it does for the missing
  one. \<^verbatim>\<open>get_time_since_order\<close> tests \<^verbatim>\<open>if not order_time\<close> after parsing and returns
  \<^verbatim>\<open>float('inf')\<close> there (lines 501 to 503), but \<^verbatim>\<open>parse_iso_datetime\<close> never
  returns \<open>None\<close> for a non-empty string: its second call of the parser is outside the
  \<^verbatim>\<open>try\<close>, so for the timestamp \<open>not-a-date\<close> the ValueError leaves
  \<^verbatim>\<open>get_time_since_order\<close> and the monitor step; the time is not taken as infinite
  and the leg is not evaluated.
\<close>

theorem unparseable_timestamp_raises:
  "get_time_since_order fromisoformat_seconds (\<lambda>d. Inr 90) (pending_leg 30 (Some ''not-a-date''))
     = Inl ValueError
   \<and> monitor_decision fromisoformat_seconds (\<lambda>d. Inr 90) (sample_hedge 30 (Some ''not-a-date''))
        (Some 20) (Inr (Some (quote_of 35 37)))
     = Inl ValueError"
  by (simp add: monitor_decision_def get_time_since_order_def parse_iso_datetime_def replace_Z_def
        fromisoformat_seconds_def sample_hedge_def pending_leg_def leg_V_filled_def Let_def)

section \<open>Discovered pairs respect the price limits\<close>

lemma make_bucket_price: "make_bucket m = Some b \<Longrightarrow> 15 \<le> maker_price b"
  by (auto simp add: make_bucket_def Let_def split: if_splits option.splits)

lemma set_map_filter: "set (List.map_filter f xs) = {y. \<exists>x \<in> set xs. f x = Some y}"
  by (induction xs) (auto simp add: List.map_filter_simps split: option.splits)

lemma sorted_buckets_price: "b \<in> set (sorted_buckets markets) \<Longrightarrow> 15 \<le> maker_price b"
  by (auto simp add: sorted_buckets_def set_map_filter dest: make_bucket_price)

lemma first_index_less: "first_index P xs = Some i \<Longrightarrow> i < length xs"
  by (induction xs arbitrary: i) (auto split: if_splits)

lemma closest_index_less:
  "closest_index bs t i best = Some (d, k) \<Longrightarrow>
   (\<And>d' k'. best = Some (d', k') \<Longrightarrow> k' < i) \<Longrightarrow> k < i + length bs"
proof (induction bs arbitrary: i best)
  case Nil
  then show ?case by simp
next
  case (Cons b bs)
  show ?case
  proof (cases best)
    case None
    then have "closest_index bs t (Suc i) (Some (\<bar>midpoint b - t\<bar>, i)) = Some (d, k)"
      using Cons.prems(1) by (simp add: Let_def)
    then have "k < Suc i + length bs"
      by (rule Cons.IH) simp
    then show ?thesis by simp
  next
    case (Some p)
    obtain bd bi where p: "p = (bd, bi)" by (cases p)
    have bi: "bi < i" using Cons.prems(2) Some p by simp
    show ?thesis
    proof (cases "\<bar>midpoint b - t\<bar> < bd")
      case True
      then have "closest_index bs t (Suc i) (Some (\<bar>midpoint b - t\<bar>, i)) = Some (d, k)"
        using Cons.prems(1) Some p by (simp add: Let_def)
      then have "k < Suc i + length bs"
        by (rule Cons.IH) simp
      then show ?thesis by simp
    next
      case False
      then have keep: "closest_index bs t (Suc i) (Some (bd, bi)) = Some (d, k)"
        using Cons.prems(1) Some p by (simp add: Let_def)
      have "k < Suc i + length bs"
      proof (rule Cons.IH [OF keep])
        fix d' k'
        assume "Some (bd, bi) = Some (d', k')"
        then show "k' < Suc i" using bi by simp
      qed
      then show ?thesis by simp
    qed
  qed
qed

lemma forecast_bucket_idx_less:
  assumes "forecast_bucket_idx buckets t = Some idx"
  shows "idx < length buckets"
proof (cases "first_index (\<lambda>b. holds_forecast b t) buckets")
  case None
  then obtain d where "closest_index buckets t 0 None = Some (d, idx)"
    using assms by (auto simp add: forecast_bucket_idx_def)
  then have "idx < 0 + length buckets"
    by (rule closest_index_less) simp
  then show ?thesis by simp
next
  case (Some i)
  then show ?thesis
    using assms first_index_less [OF Some] by (simp add: forecast_bucket_idx_def)
qed

lemma candidate_pairs_less:
  assumes "c \<in> set (candidate_pairs buckets idx)" and "idx < length buckets"
  shows "fst c < length buckets \<and> fst (snd c) < length buckets"
  using assms by (auto simp add: candidate_pairs_def split: if_splits)

lemma evaluate_pair_limits:
  assumes "evaluate_pair buckets t c = Some vp"
  shows "pair vp = (buckets ! fst c, buckets ! fst (snd c))
       \<and> maker_price (fst (pair vp)) \<le> MAX_BUCKET_PRICE
       \<and> maker_price (snd (pair vp)) \<le> MAX_BUCKET_PRICE
       \<and> pair_total_cost vp = maker_price (fst (pair vp)) + maker_price (snd (pair vp))
       \<and> pair_total_cost vp \<le> MAX_TOTAL_COST"
proof -
  obtain i j ty where c: "c = (i, j, ty)" by (cases c)
  show ?thesis
    using assms unfolding c evaluate_pair_def Let_def
    by (auto split: if_splits)
qed

lemma sample_buckets: "sorted_buckets sample_markets = [bucket_T49, bucket_B49, bucket_T50]"
  by (simp add: sorted_buckets_def sample_markets_def market_of_def make_bucket_def
        List.map_filter_simps maker_price_of_def or0_def Let_def
        bucket_T49_def bucket_B49_def bucket_T50_def)

lemma sample_opportunity:
  "find_hedge_opportunity sample_markets (497 / 10) = Some (bucket_B49, bucket_T50, 60)"
  by (simp add: find_hedge_opportunity_def sample_buckets forecast_bucket_idx_def
        holds_forecast_def candidate_pairs_def evaluate_pair_def List.map_filter_simps
        get_default_def MAX_BUCKET_PRICE_def MAX_TOTAL_COST_def Let_def less_eq_prod_def
        bucket_T49_def bucket_B49_def bucket_T50_def)

text \<open>
  C1: for every bucket snapshot and forecast, when hedge discovery returns a pair, each
  leg's maker price is at least \<open>MIN_BUCKET_PRICE\<close> and at most \<open>MAX_BUCKET_PRICE\<close>, the
  two maker prices sum to at most \<open>MAX_TOTAL_COST\<close>, and the returned total cost is that
  sum.
\<close>

theorem discovered_pair_within_limits:
  assumes "find_hedge_opportunity markets forecast_temp = Some (b1, b2, cost)"
  shows "MIN_BUCKET_PRICE \<le> maker_price b1 \<and> maker_price b1 \<le> MAX_BUCKET_PRICE
       \<and> MIN_BUCKET_PRICE \<le> maker_price b2 \<and> maker_price b2 \<le> MAX_BUCKET_PRICE
       \<and> maker_price b1 + maker_price b2 \<le> MAX_TOTAL_COST
       \<and> cost = maker_price b1 + maker_price b2"
proof -
  define buckets where "buckets = sorted_buckets markets"
  obtain idx where idx: "forecast_bucket_idx buckets forecast_temp = Some idx"
    using assms by (auto simp add: find_hedge_opportunity_def Let_def buckets_def split: option.splits)
  define valid_pairs where
    "valid_pairs = List.map_filter (evaluate_pair buckets forecast_temp) (candidate_pairs buckets idx)"
  obtain best rest where
    best: "sort_key (\<lambda>x. (- coverage_score x, pair_total_cost x)) valid_pairs = best # rest"
    and res: "b1 = fst (pair best)" "b2 = snd (pair best)" "cost = pair_total_cost best"
    using assms idx
    by (auto simp add: find_hedge_opportunity_def Let_def buckets_def valid_pairs_def
          split: list.splits)
  have "best \<in> set (sort_key (\<lambda>x. (- coverage_score x, pair_total_cost x)) valid_pairs)"
    by (simp add: best)
  then have "best \<in> set valid_pairs" by simp
  then obtain c where c: "c \<in> set (candidate_pairs buckets idx)"
    and ev: "evaluate_pair buckets forecast_temp c = Some best"
    by (auto simp add: valid_pairs_def set_map_filter)
  have lim: "pair best = (buckets ! fst c, buckets ! fst (snd c))"
    "maker_price (fst (pair best)) \<le> MAX_BUCKET_PRICE"
    "maker_price (snd (pair best)) \<le> MAX_BUCKET_PRICE"
    "pair_total_cost best = maker_price (fst (pair best)) + maker_price (snd (pair best))"
    "pair_total_cost best \<le> MAX_TOTAL_COST"
    using evaluate_pair_limits [OF ev] by blast+
  have less: "fst c < length buckets" "fst (snd c) < length buckets"
    using candidate_pairs_less [OF c forecast_bucket_idx_less [OF idx]] by simp_all
  have "b1 \<in> set buckets" "b2 \<in> set buckets"
    using less lim(1) res(1,2) by simp_all
  then have "15 \<le> maker_price b1" "15 \<le> maker_price b2"
    unfolding buckets_def by (auto dest: sorted_buckets_price)
  then show ?thesis
    using lim(2-5) res by (simp add: MIN_BUCKET_PRICE_def)
qed


theorem discovered_pair_within_limits_witness:
  "find_hedge_opportunity sample_markets (497 / 10) = Some (bucket_B49, bucket_T50, 60)
   \<and> maker_price bucket_B49 = 38 \<and> maker_price bucket_T50 = 22
   \<and> MIN_BUCKET_PRICE \<le> 38 \<and> 38 \<le> MAX_BUCKET_PRICE
   \<and> MIN_BUCKET_PRICE \<le> 22 \<and> 22 \<le> MAX_BUCKET_PRICE
   \<and> 38 + 22 \<le> MAX_TOTAL_COST \<and> (60::int) = 38 + 22"
proof -
  have p: "maker_price bucket_B49 = 38" "maker_price bucket_T50 = 22"
    by (simp_all add: bucket_B49_def bucket_T50_def)
  show ?thesis
    using discovered_pair_within_limits [OF sample_opportunity] sample_opportunity
    by (simp add: p)
qed

section \<open>Sort midpoints of open-ended buckets\<close>

text \<open>
  C9, as stated, fails: the bucket with the cap 49 and no floor gets the midpoint 48.5,
  which is not 49.5 and lies below the cap, and the bucket with the floor 50 and no cap
  gets 50.5, above its floor: each synthetic midpoint lies inside the range of its
  bucket (the bucket holds a forecast equal to its midpoint), not outside its bound.
\<close>

theorem midpoint_outside_counterexample:
  "map (\<lambda>b. (bucket_floor b, bucket_cap b, midpoint b, holds_forecast b (midpoint b)))
       (sorted_buckets [market_of ''T50'' (Some 50) None 21 23, market_of ''T49'' None (Some 49) 21 23])
     = [(None, Some 49, 97 / 2, True), (Some 50, None, 101 / 2, True)]
   \<and> (97 / 2 :: rat) \<noteq> 49 + 1 / 2 \<and> (97 / 2 :: rat) < 49
   \<and> (101 / 2 :: rat) \<noteq> 50 - 1 / 2 \<and> (50 :: rat) < 101 / 2"
  by (simp add: sorted_buckets_def market_of_def make_bucket_def List.map_filter_simps
        maker_price_of_def or0_def holds_forecast_def Let_def)

text \<open>
  C9, amended: during hedge discovery every bucket with exactly one bound is assigned a
  synthetic sort midpoint half a degree inside its range from its one bound (the cap
  minus 0.5 for a cap-only bucket, the floor plus 0.5 for a floor-only bucket), and the
  buckets are sorted by that midpoint.
\<close>

theorem open_ended_midpoints:
  "sorted (map midpoint (sorted_buckets markets))
   \<and> (\<forall>b \<in> set (sorted_buckets markets).
         (bucket_floor b = None \<longrightarrow> (\<exists>c. bucket_cap b = Some c \<and> midpoint b = c - 1 / 2))
       \<and> (bucket_cap b = None \<longrightarrow> (\<exists>f. bucket_floor b = Some f \<and> midpoint b = f + 1 / 2)))"
proof -
  have "sorted (map midpoint (sorted_buckets markets))"
    by (simp add: sorted_buckets_def)
  moreover have "(bucket_floor b = None \<longrightarrow> (\<exists>c. bucket_cap b = Some c \<and> midpoint b = c - 1 / 2))
       \<and> (bucket_cap b = None \<longrightarrow> (\<exists>f. bucket_floor b = Some f \<and> midpoint b = f + 1 / 2))"
    if "make_bucket m = Some b" for m b
    using that by (auto simp add: make_bucket_def Let_def split: if_splits option.splits)
  ultimately show ?thesis
    by (auto simp add: sorted_buckets_def set_map_filter)
qed

theorem open_ended_midpoints_witness:
  "map (\<lambda>b. (bucket_floor b, bucket_cap b, midpoint b)) (sorted_buckets sample_markets)
     = [(None, Some 49, 49 - 1 / 2), (Some 49, Some 50, 99 / 2), (Some 50, None, 50 + 1 / 2)]
   \<and> sorted (map midpoint (sorted_buckets sample_markets))"
  using open_ended_midpoints [of sample_markets]
  by (simp add: sample_buckets bucket_T49_def bucket_B49_def bucket_T50_def)

end
